theory Spec2Isabelle
  imports Main "HOL-Library.List_Lexorder" "HOL-Library.Product_Lexorder"
begin

section \<open>Python values\<close>

text \<open>
  A Python \<open>str\<close> is a sequence of Unicode code points: \<open>len\<close>, slicing and
  \<open><\<close> all work on code points, so a string is a list of naturals. \<open>str\<close> turns a
  literal of this theory into such a list.
\<close>

type_synonym pystr = "nat list"

definition str :: "string \<Rightarrow> pystr" where
  "str s = map of_char s"

text \<open>
  What \<open>json.loads\<close> returns, and what the API data and the written files hold. A
  dictionary is an association list in insertion order; \<open>dict_get\<close> reads the first
  binding of a key. Numbers with a fraction do not occur in the fields the program reads.
\<close>

datatype json =
    JNull
  | JBool bool
  | JInt int
  | JStr pystr
  | JList "json list"
  | JDict "(pystr \<times> json) list"

datatype py_error =
    KeyError | AttributeError | TypeError | ValueError | OverflowError | FileNotFoundError

type_synonym 'a result = "py_error + 'a"

definition bnd :: "'a result \<Rightarrow> ('a \<Rightarrow> 'b result) \<Rightarrow> 'b result" where
  "bnd m f = (case m of Inl e \<Rightarrow> Inl e | Inr x \<Rightarrow> f x)"

fun mapM :: "('a \<Rightarrow> 'b result) \<Rightarrow> 'a list \<Rightarrow> 'b list result" where
  "mapM f [] = Inr []"
| "mapM f (x # xs) = bnd (f x) (\<lambda>y. bnd (mapM f xs) (\<lambda>ys. Inr (y # ys)))"

text \<open>Python's truth value of a JSON value (\<open>if x\<close>, \<open>x or y\<close>, \<open>not x\<close>).\<close>

fun truthy :: "json \<Rightarrow> bool" where
  "truthy JNull = False"
| "truthy (JBool b) = b"
| "truthy (JInt n) = (n \<noteq> 0)"
| "truthy (JStr s) = (s \<noteq> [])"
| "truthy (JList xs) = (xs \<noteq> [])"
| "truthy (JDict kv) = (kv \<noteq> [])"

definition dict_get :: "(pystr \<times> json) list \<Rightarrow> string \<Rightarrow> json option" where
  "dict_get d k = map_of d (str k)"

text \<open>\<open>d.get(k, default)\<close> on a dictionary.\<close>

definition get_default :: "(pystr \<times> json) list \<Rightarrow> string \<Rightarrow> json \<Rightarrow> json" where
  "get_default d k dflt = (case dict_get d k of None \<Rightarrow> dflt | Some v \<Rightarrow> v)"

text \<open>\<open>d[k]\<close> on a dictionary: a missing key raises \<open>KeyError\<close>.\<close>

definition subscript :: "(pystr \<times> json) list \<Rightarrow> string \<Rightarrow> json result" where
  "subscript d k = (case dict_get d k of None \<Rightarrow> Inl KeyError | Some v \<Rightarrow> Inr v)"

text \<open>\<open>v[k]\<close> with a string \<open>k\<close>: only a dictionary can be read that way.\<close>

definition item :: "json \<Rightarrow> string \<Rightarrow> json result" where
  "item v k = (case v of JDict d \<Rightarrow> subscript d k | _ \<Rightarrow> Inl TypeError)"

section \<open>String operations\<close>

text \<open>\<open>x in l\<close> on strings: \<open>x\<close> occurs in \<open>l\<close> as a contiguous run.\<close>

fun startswith :: "'a list \<Rightarrow> 'a list \<Rightarrow> bool" where
  "startswith l [] = True"
| "startswith [] (x # xs) = False"
| "startswith (c # cs) (x # xs) = (c = x \<and> startswith cs xs)"

fun py_in :: "'a list \<Rightarrow> 'a list \<Rightarrow> bool" where
  "py_in x [] = (x = [])"
| "py_in x (c # cs) = (startswith (c # cs) x \<or> py_in x cs)"

text \<open>
  \<open>str.lower()\<close>. The letters \<open>A\<close> to \<open>Z\<close> go to \<open>a\<close> to \<open>z\<close> and every other
  ASCII character stays. What a character beyond ASCII becomes is a table of the Python
  runtime and may depend on the character's neighbours (the final sigma) and be more than
  one character: it is the parameter \<open>ext\<close>, which gets the string and the position.
\<close>

type_synonym unicode_lower = "pystr \<Rightarrow> nat \<Rightarrow> pystr"

definition lower_at :: "unicode_lower \<Rightarrow> pystr \<Rightarrow> nat \<Rightarrow> pystr" where
  "lower_at ext s i =
     (let c = s ! i in
      if 65 \<le> c \<and> c \<le> 90 then [c + 32]
      else if c < 128 then [c]
      else ext s i)"

definition lower :: "unicode_lower \<Rightarrow> pystr \<Rightarrow> pystr" where
  "lower ext s = concat (map (lower_at ext s) [0..<length s])"

text \<open>\<open>any(x in l for l in ls for x in kws)\<close>.\<close>

definition any_in :: "pystr list \<Rightarrow> pystr list \<Rightarrow> bool" where
  "any_in kws ls = list_ex (\<lambda>l. list_ex (\<lambda>x. py_in x l) kws) ls"

section \<open>Classification of an issue by its labels\<close>

definition GOOD_FIRST_ISSUE_LABELS :: "pystr list" where
  "GOOD_FIRST_ISSUE_LABELS =
     [str ''good first issue'', str ''good-first-issue'', str ''easy'', str ''beginner'',
      str ''starter'', str ''first-timers-only'', str ''help wanted'', str ''up-for-grabs'']"

definition bug_keywords :: "pystr list" where
  "bug_keywords = [str ''bug'', str ''defect'', str ''error'', str ''regression'']"

definition feature_keywords :: "pystr list" where
  "feature_keywords = [str ''enhancement'', str ''feature'', str ''proposal'']"

definition security_keywords :: "pystr list" where
  "security_keywords = [str ''security'', str ''vulnerability'', str ''cve'']"

text \<open>The two strings of the \<open>is_help_wanted\<close> test, as a list.\<close>

definition help_wanted_keywords :: "pystr list" where
  "help_wanted_keywords = [str ''help wanted'', str ''help-wanted'']"

record classification =
  priority :: pystr
  is_bug :: bool
  is_feature :: bool
  is_security :: bool
  is_good_first_issue :: bool
  is_help_wanted :: bool

definition classify_issue :: "unicode_lower \<Rightarrow> pystr list \<Rightarrow> classification" where
  "classify_issue ext labels =
     (let lower = map (lower ext) labels;
          is_bug = any_in bug_keywords lower;
          is_feature = any_in feature_keywords lower;
          is_security = any_in security_keywords lower;
          is_good_first = any_in GOOD_FIRST_ISSUE_LABELS lower;
          is_help_wanted =
            list_ex (\<lambda>l. py_in (str ''help wanted'') l \<or> py_in (str ''help-wanted'') l) lower;
          priority =
            (if is_security then str ''critical''
             else if is_bug then str ''high''
             else if is_feature then str ''medium''
             else str ''low'')
      in \<lparr>priority = priority, is_bug = is_bug, is_feature = is_feature,
          is_security = is_security, is_good_first_issue = is_good_first,
          is_help_wanted = is_help_wanted\<rparr>)"

section \<open>Processing one raw issue\<close>

text \<open>
  \<open>s.replace(c, t)\<close> for a pattern \<open>c\<close> of one character, and \<open>s.strip()\<close>, which drops
  the characters Python counts as whitespace (\<open>str.isspace\<close>) from both ends.
\<close>

definition replace :: "nat \<Rightarrow> pystr \<Rightarrow> pystr \<Rightarrow> pystr" where
  "replace c t s = concat (map (\<lambda>x. if x = c then t else [x]) s)"

definition isspace :: "nat \<Rightarrow> bool" where
  "isspace c \<longleftrightarrow>
     (9 \<le> c \<and> c \<le> 13) \<or> (28 \<le> c \<and> c \<le> 32) \<or> c = 133 \<or> c = 160 \<or> c = 5760 \<or>
     (8192 \<le> c \<and> c \<le> 8202) \<or> c = 8232 \<or> c = 8233 \<or> c = 8239 \<or> c = 8287 \<or> c = 12288"

definition strip :: "pystr \<Rightarrow> pystr" where
  "strip s = rev (dropWhile isspace (rev (dropWhile isspace s)))"

text \<open>
  The Python runtime the program runs on, where it is more than this theory defines.
  \<open>datetime.fromisoformat\<close> raises \<open>ValueError\<close> (\<open>Invalid\<close>), or gives a time without a
  zone (\<open>Naive\<close>) or one with a zone, here as microseconds since the epoch.
  \<open>unicode_decimal\<close> is the value of a decimal digit beyond ASCII, for \<open>int\<close>.
  \<open>int_max_str_digits\<close> is the limit on the digits \<open>int\<close> reads (\<open>0\<close>: none; a limit
  is at least 640). \<open>sorted_mixed\<close> is what \<open>sorted\<close> does with keys whose last
  components are not all strings, from the keys and the items: whether it raises
  \<open>TypeError\<close> depends on the comparisons its algorithm makes.
\<close>

datatype parsed = Invalid | Naive | Aware int

record library =
  unicode_lower :: unicode_lower
  fromisoformat :: "pystr \<Rightarrow> parsed"
  unicode_decimal :: "nat \<Rightarrow> nat option"
  int_max_str_digits :: nat
  sorted_mixed :: "(nat \<times> nat \<times> json) list \<Rightarrow> json list \<Rightarrow> json list result"

definition LOOKBACK_DAYS_NEW :: int where
  "LOOKBACK_DAYS_NEW = 7"

definition MAX_ISSUES_PER_REPO :: nat where
  "MAX_ISSUES_PER_REPO = 30"

record issue = classification +
  issue_id :: json
  repo :: pystr
  category :: pystr
  category_label :: pystr
  number :: json
  title :: json
  url :: json
  author :: json
  author_avatar :: json
  created_at :: json
  updated_at :: json
  comments :: json
  labels :: "pystr list"
  body_preview :: pystr
  is_new :: bool

text \<open>
  \<open>[l.get("name", "") for l in raw.get("labels", [])]\<close>: the value is iterated, and each
  element must have a \<open>get\<close>. Iterating a dictionary or a string gives strings, which
  have none.
\<close>

definition label_names :: "json \<Rightarrow> json list result" where
  "label_names v =
     (case v of
        JList ls \<Rightarrow>
          mapM (\<lambda>l. case l of JDict d \<Rightarrow> Inr (get_default d ''name'' (JStr []))
                              | _ \<Rightarrow> Inl AttributeError) ls
      | JDict d \<Rightarrow> if d = [] then Inr [] else Inl AttributeError
      | JStr s \<Rightarrow> if s = [] then Inr [] else Inl AttributeError
      | _ \<Rightarrow> Inl TypeError)"

text \<open>\<open>l.lower()\<close> in \<open>classify_issue\<close> needs a string.\<close>

definition as_str :: "json \<Rightarrow> pystr result" where
  "as_str v = (case v of JStr s \<Rightarrow> Inr s | _ \<Rightarrow> Inl AttributeError)"

text \<open>
  The \<open>is_new\<close> flag. Only \<open>ValueError\<close> is caught; comparing a time without a zone
  with the cutoff raises \<open>TypeError\<close>, and a value that is not a string has no
  \<open>replace\<close>. \<open>now\<close> is the reading of \<open>datetime.now(timezone.utc)\<close>, in microseconds.
\<close>

definition created_is_new :: "library \<Rightarrow> int \<Rightarrow> json \<Rightarrow> bool result" where
  "created_is_new lib now created =
     (if truthy created then
        (case created of
           JStr s \<Rightarrow>
             (case fromisoformat lib (replace 90 (str ''+00:00'') s) of
                Invalid \<Rightarrow> Inr False
              | Naive \<Rightarrow> Inl TypeError
              | Aware t \<Rightarrow> Inr (t > now - LOOKBACK_DAYS_NEW * 86400 * 1000000))
         | _ \<Rightarrow> Inl AttributeError)
      else Inr False)"

text \<open>
  \<open>raw.get("body") or ""\<close>, then \<open>body[:400].replace(...)\<close> and \<open>len(body)\<close>: a body
  that is true and not a string raises (a list can be sliced and has no \<open>replace\<close>;
  the others cannot be sliced).
\<close>

definition body_or_empty :: "(pystr \<times> json) list \<Rightarrow> pystr result" where
  "body_or_empty d =
     (let v = (case dict_get d ''body'' of None \<Rightarrow> JNull | Some v \<Rightarrow> v);
          body = (if truthy v then v else JStr [])
      in case body of
           JStr s \<Rightarrow> Inr s
         | JList xs \<Rightarrow> Inl AttributeError
         | _ \<Rightarrow> Inl TypeError)"

definition make_preview :: "pystr \<Rightarrow> pystr" where
  "make_preview body =
     (let preview = strip (replace 10 (str '' '') (take 400 body))
      in if length body > 400 then preview @ str ''...'' else preview)"

text \<open>\<open>raw.get("user", {}).get(k, default)\<close>.\<close>

definition user_field :: "(pystr \<times> json) list \<Rightarrow> string \<Rightarrow> json \<Rightarrow> json result" where
  "user_field d k dflt =
     (case get_default d ''user'' (JDict []) of
        JDict u \<Rightarrow> Inr (get_default u k dflt)
      | _ \<Rightarrow> Inl AttributeError)"

definition process_issue ::
  "library \<Rightarrow> int \<Rightarrow> json \<Rightarrow> pystr \<Rightarrow> pystr \<Rightarrow> pystr \<Rightarrow> issue result" where
  "process_issue lib now raw repo' category' category_label' =
     (case raw of
        JDict d \<Rightarrow>
          bnd (label_names (get_default d ''labels'' (JList []))) (\<lambda>names.
          bnd (mapM as_str names) (\<lambda>labels.
          let created = get_default d ''created_at'' (JStr []);
              c = classify_issue (unicode_lower lib) labels
          in
          bnd (created_is_new lib now created) (\<lambda>is_new.
          bnd (body_or_empty d) (\<lambda>body.
          bnd (subscript d ''id'') (\<lambda>i.
          bnd (subscript d ''number'') (\<lambda>n.
          bnd (subscript d ''title'') (\<lambda>t.
          bnd (subscript d ''html_url'') (\<lambda>u.
          bnd (user_field d ''login'' (JStr (str ''unknown''))) (\<lambda>login.
          bnd (user_field d ''avatar_url'' (JStr [])) (\<lambda>avatar.
          Inr \<lparr>priority = priority c, is_bug = is_bug c, is_feature = is_feature c,
               is_security = is_security c, is_good_first_issue = is_good_first_issue c,
               is_help_wanted = is_help_wanted c,
               issue_id = i, repo = repo', category = category',
               category_label = category_label', number = n, title = t, url = u,
               author = login, author_avatar = avatar, created_at = created,
               updated_at = get_default d ''updated_at'' (JStr []),
               comments = get_default d ''comments'' (JInt 0),
               labels = labels, body_preview = make_preview body,
               is_new = is_new\<rparr>))))))))))
      | _ \<Rightarrow> Inl AttributeError)"

section \<open>The GitHub client\<close>

text \<open>
  \<open>int(s)\<close> on a string: whitespace around, a sign, decimal digits with single
  underscores between them; anything else raises \<open>ValueError\<close> (\<open>None\<close>), and so does
  a number with more digits than the limit. The whitespace \<open>int\<close> skips is narrower than
  that of \<open>strip\<close>: of the ASCII characters only tab to carriage return and the space.
\<close>

definition int_space :: "nat \<Rightarrow> bool" where
  "int_space c \<longleftrightarrow> (9 \<le> c \<and> c \<le> 13) \<or> c = 32 \<or> (128 \<le> c \<and> isspace c)"

definition decimal :: "library \<Rightarrow> nat \<Rightarrow> nat option" where
  "decimal lib c =
     (if 48 \<le> c \<and> c \<le> 57 then Some (c - 48)
      else if c < 128 then None
      else unicode_decimal lib c)"

fun digits_value :: "library \<Rightarrow> pystr \<Rightarrow> int \<Rightarrow> int option" where
  "digits_value lib [] acc = Some acc"
| "digits_value lib (c # cs) acc =
     (case decimal lib c of
        Some v \<Rightarrow> digits_value lib cs (10 * acc + int v)
      | None \<Rightarrow>
          if c = 95 \<and> cs \<noteq> [] \<and> decimal lib (hd cs) \<noteq> None
          then digits_value lib cs acc
          else None)"

definition unsigned_int :: "library \<Rightarrow> pystr \<Rightarrow> int option" where
  "unsigned_int lib s =
     (case s of
        [] \<Rightarrow> None
      | c # cs \<Rightarrow>
          if decimal lib c = None then None
          else if 0 < int_max_str_digits lib \<and>
                  int_max_str_digits lib < length (filter (\<lambda>x. decimal lib x \<noteq> None) s)
          then None
          else digits_value lib s 0)"

definition py_int :: "library \<Rightarrow> pystr \<Rightarrow> int option" where
  "py_int lib s =
     (case rev (dropWhile int_space (rev (dropWhile int_space s))) of
        [] \<Rightarrow> None
      | c # cs \<Rightarrow>
          if c = 45 then map_option uminus (unsigned_int lib cs)
          else if c = 43 then unsigned_int lib cs
          else unsigned_int lib (c # cs))"

text \<open>
  A request names the repository and, for the issue list, \<open>per_page\<close>. What
  \<open>urllib.request.urlopen\<close> does with it is the world's answer: a response with its
  \<open>X-RateLimit-Remaining\<close> header and its body read as JSON (\<open>None\<close> when reading,
  decoding or parsing raises), an \<open>HTTPError\<close> with its code and its
  \<open>X-RateLimit-Reset\<close> header, or any other exception.
\<close>

datatype request = IssuesRequest pystr nat | RepoRequest pystr

datatype http_outcome =
    Response "pystr option" "json option"
  | HTTPError int "pystr option"
  | Failure

type_synonym network = "request \<Rightarrow> http_outcome"

text \<open>
  The clock: \<open>utcnow r k\<close> is what \<open>datetime.now(timezone.utc)\<close> reads while issue
  number \<open>k\<close> of repository \<open>r\<close> is processed, \<open>time_time q\<close> is \<open>int(time.time())\<close> in the
  handler of request \<open>q\<close>, \<open>stats_time\<close> is the \<open>datetime.now(timezone.utc).isoformat()\<close>
  of \<open>fetch_all\<close>, \<open>build_time\<close> the one of \<open>build_site\<close>.
\<close>

record clock =
  utcnow :: "pystr \<Rightarrow> nat \<Rightarrow> int"
  time_time :: "request \<Rightarrow> int"
  stats_time :: pystr
  build_time :: pystr

text \<open>
  \<open>time.sleep(n)\<close> for an integer \<open>n\<close> raises \<open>OverflowError\<close> when the nanoseconds do
  not fit 64 bits; otherwise it only delays.
\<close>

definition MAX_SLEEP :: int where
  "MAX_SLEEP = 9223372036"

record github =
  remaining :: int

definition header_int :: "library \<Rightarrow> pystr option \<Rightarrow> int option" where
  "header_int lib h = (case h of None \<Rightarrow> Some 0 | Some v \<Rightarrow> py_int lib v)"

text \<open>
  \<open>GitHub.get\<close>. An exception in the \<open>try\<close> body is caught by one of the two handlers;
  one raised inside a handler is not: the \<open>int\<close> of the reset header and the
  \<open>time.sleep\<close> of the 403 handler can raise.
\<close>

definition get ::
  "library \<Rightarrow> clock \<Rightarrow> network \<Rightarrow> github \<Rightarrow> request \<Rightarrow> (json \<times> github) result" where
  "get lib clk urlopen self req =
     (case urlopen req of
        Response rem payload \<Rightarrow>
          (case header_int lib rem of
             None \<Rightarrow> Inr (JList [], self)
           | Some n \<Rightarrow>
               (case payload of
                  None \<Rightarrow> Inr (JList [], self\<lparr>remaining := n\<rparr>)
                | Some v \<Rightarrow> Inr (v, self\<lparr>remaining := n\<rparr>)))
      | HTTPError code reset_header \<Rightarrow>
          if code = 403 then
            (if remaining self < 10 then
               (case header_int lib reset_header of
                  None \<Rightarrow> Inl ValueError
                | Some reset \<Rightarrow>
                    let wait = max (reset - time_time clk req) 60
                    in if wait > MAX_SLEEP then Inl OverflowError
                       else Inr (JList [], self))
             else Inr (JList [], self))
          else if code = 404 then Inr (JList [], self)
          else Inr (JList [], self)
      | Failure \<Rightarrow> Inr (JList [], self))"

definition get_repo_info ::
  "library \<Rightarrow> clock \<Rightarrow> network \<Rightarrow> github \<Rightarrow> pystr \<Rightarrow> (json \<times> github) result" where
  "get_repo_info lib clk urlopen self owner_repo =
     bnd (get lib clk urlopen self (RepoRequest owner_repo))
       (\<lambda>(v, self'). Inr (if truthy v then v else JDict [], self'))"

text \<open>
  \<open>"pull_request" in i\<close>: a key of a dictionary, an element of a list, a part of a
  string; the other values raise \<open>TypeError\<close>.
\<close>

definition has_pull_request :: "json \<Rightarrow> bool result" where
  "has_pull_request i =
     (case i of
        JDict d \<Rightarrow> Inr (dict_get d ''pull_request'' \<noteq> None)
      | JList xs \<Rightarrow> Inr (JStr (str ''pull_request'') \<in> set xs)
      | JStr s \<Rightarrow> Inr (py_in (str ''pull_request'') s)
      | _ \<Rightarrow> Inl TypeError)"

fun without_pull_requests :: "json list \<Rightarrow> json list result" where
  "without_pull_requests [] = Inr []"
| "without_pull_requests (i # items) =
     bnd (has_pull_request i) (\<lambda>b.
     bnd (without_pull_requests items) (\<lambda>rest.
     Inr (if b then rest else i # rest)))"

definition get_open_issues ::
  "library \<Rightarrow> clock \<Rightarrow> network \<Rightarrow> github \<Rightarrow> pystr \<Rightarrow> nat \<Rightarrow>
   (json list \<times> github) result" where
  "get_open_issues lib clk urlopen self owner_repo per_page =
     bnd (get lib clk urlopen self (IssuesRequest owner_repo per_page))
       (\<lambda>(items, self').
          case items of
            JList xs \<Rightarrow> bnd (without_pull_requests xs) (\<lambda>ys. Inr (ys, self'))
          | _ \<Rightarrow> Inr ([], self'))"

section \<open>Fetching all repositories\<close>

text \<open>
  The configuration \<open>repos.json\<close>, as \<open>fetch_all\<close> reads it: the categories in file
  order, each with its label, icon, description and repositories.
\<close>

record cat_data =
  label :: pystr
  icon :: pystr
  description :: pystr
  repos :: "pystr list"

type_synonym categories = "(pystr \<times> cat_data) list"

text \<open>\<open>d[k] = v\<close>: a key already there keeps its place.\<close>

fun dict_set :: "('k \<times> 'v) list \<Rightarrow> 'k \<Rightarrow> 'v \<Rightarrow> ('k \<times> 'v) list" where
  "dict_set [] k v = [(k, v)]"
| "dict_set ((k', v') # d) k v =
     (if k' = k then (k, v) # d else (k', v') # dict_set d k v)"

text \<open>\<open>sum(1 for i in xs if p(i))\<close>.\<close>

definition count_if :: "('a \<Rightarrow> bool) \<Rightarrow> 'a list \<Rightarrow> nat" where
  "count_if p xs = sum_list (map (\<lambda>i. 1) (filter p xs))"

text \<open>The de-duplication of the repositories: the first category that lists one keeps it.\<close>

definition add_repo ::
  "pystr \<Rightarrow> pystr \<Rightarrow> (pystr \<times> pystr \<times> pystr) list \<Rightarrow> pystr \<Rightarrow> (pystr \<times> pystr \<times> pystr) list" where
  "add_repo cat_key cat_label repo_to_category r =
     (if map_of repo_to_category r = None
      then dict_set repo_to_category r (cat_key, cat_label)
      else repo_to_category)"

definition repo_to_category :: "categories \<Rightarrow> (pystr \<times> pystr \<times> pystr) list" where
  "repo_to_category cats =
     foldl (\<lambda>m (cat_key, cat_data). foldl (add_repo cat_key (label cat_data)) m (repos cat_data))
       [] cats"

record repo_stat =
  rs_category :: pystr
  rs_category_label :: pystr
  total_open_issues :: json
  stars :: json
  forks :: json
  rs_description :: json
  fetched_issues :: nat
  new_issues :: nat
  bugs :: nat
  features :: nat
  good_first_issues :: nat
  help_wanted :: nat

record fetch_state =
  gh :: github
  all_issues :: "issue list"
  issues_by_repo :: "(pystr \<times> issue list) list"
  repo_stats :: "(pystr \<times> repo_stat) list"

definition info_field :: "json \<Rightarrow> string \<Rightarrow> json \<Rightarrow> json" where
  "info_field repo_info k dflt =
     (case repo_info of JDict d \<Rightarrow> get_default d k dflt | _ \<Rightarrow> dflt)"

text \<open>
  One round of the loop over \<open>unique_repos\<close>. The \<open>time.sleep\<close> at its end is given a
  constant, so it only delays, and is left out.
\<close>

definition fetch_repo ::
  "library \<Rightarrow> clock \<Rightarrow> network \<Rightarrow> fetch_state \<Rightarrow> pystr \<times> pystr \<times> pystr \<Rightarrow> fetch_state result" where
  "fetch_repo lib clk urlopen st entry =
     (case entry of (r, cat_key, cat_label) \<Rightarrow>
        bnd (get_open_issues lib clk urlopen (gh st) r MAX_ISSUES_PER_REPO) (\<lambda>(raw_issues, gh1).
        bnd (mapM (\<lambda>(k, raw). process_issue lib (utcnow clk r k) raw r cat_key cat_label)
               (enumerate 0 raw_issues)) (\<lambda>processed.
        bnd (get_repo_info lib clk urlopen gh1 r) (\<lambda>(repo_info, gh2).
        Inr \<lparr>gh = gh2,
             all_issues = all_issues st @ processed,
             issues_by_repo = dict_set (issues_by_repo st) r processed,
             repo_stats = dict_set (repo_stats st) r
               \<lparr>rs_category = cat_key,
                rs_category_label = cat_label,
                total_open_issues =
                  info_field repo_info ''open_issues_count'' (JInt (int (length processed))),
                stars = info_field repo_info ''stargazers_count'' (JInt 0),
                forks = info_field repo_info ''forks_count'' (JInt 0),
                rs_description = info_field repo_info ''description'' (JStr []),
                fetched_issues = length processed,
                new_issues = count_if is_new processed,
                bugs = count_if is_bug processed,
                features = count_if is_feature processed,
                good_first_issues = count_if is_good_first_issue processed,
                help_wanted = count_if is_help_wanted processed\<rparr>\<rparr>))))"

fun fetch_loop ::
  "library \<Rightarrow> clock \<Rightarrow> network \<Rightarrow> (pystr \<times> pystr \<times> pystr) list \<Rightarrow> fetch_state \<Rightarrow>
   fetch_state result" where
  "fetch_loop lib clk urlopen [] st = Inr st"
| "fetch_loop lib clk urlopen (entry # rest) st =
     bnd (fetch_repo lib clk urlopen st entry) (fetch_loop lib clk urlopen rest)"

record priority_counts =
  critical :: nat
  high :: nat
  medium :: nat
  low :: nat

record category_stat =
  cs_label :: pystr
  cs_icon :: pystr
  cs_total_repos :: nat
  total_issues :: nat
  cs_new_issues :: nat
  cs_good_first_issues :: nat

record stats =
  generated_at :: pystr
  lookback_days_new :: int
  total_repos :: nat
  total_issues_fetched :: nat
  total_new_issues :: nat
  total_bugs :: nat
  total_features :: nat
  total_security :: nat
  total_good_first_issues :: nat
  total_help_wanted :: nat
  by_priority :: priority_counts
  by_category :: "(pystr \<times> category_stat) list"
  stats_repos :: "(pystr \<times> repo_stat) list"

text \<open>The loop that fills \<open>stats["by_category"]\<close>.\<close>

definition category_stats :: "categories \<Rightarrow> issue list \<Rightarrow> (pystr \<times> category_stat) list" where
  "category_stats cats issues =
     foldl (\<lambda>acc (cat_key, cat_data).
              let cat_issues = filter (\<lambda>i. category i = cat_key) issues
              in dict_set acc cat_key
                   \<lparr>cs_label = label cat_data,
                    cs_icon = icon cat_data,
                    cs_total_repos = length (repos cat_data),
                    total_issues = length cat_issues,
                    cs_new_issues = count_if is_new cat_issues,
                    cs_good_first_issues = count_if is_good_first_issue cat_issues\<rparr>)
       [] cats"

definition aggregate_stats ::
  "clock \<Rightarrow> categories \<Rightarrow> nat \<Rightarrow> fetch_state \<Rightarrow> stats" where
  "aggregate_stats clk cats total' st =
     (let issues = all_issues st in
      \<lparr>generated_at = stats_time clk,
       lookback_days_new = LOOKBACK_DAYS_NEW,
       total_repos = total',
       total_issues_fetched = length issues,
       total_new_issues = count_if is_new issues,
       total_bugs = count_if is_bug issues,
       total_features = count_if is_feature issues,
       total_security = count_if is_security issues,
       total_good_first_issues = count_if is_good_first_issue issues,
       total_help_wanted = count_if is_help_wanted issues,
       by_priority =
         \<lparr>critical = count_if (\<lambda>i. priority i = str ''critical'') issues,
          high = count_if (\<lambda>i. priority i = str ''high'') issues,
          medium = count_if (\<lambda>i. priority i = str ''medium'') issues,
          low = count_if (\<lambda>i. priority i = str ''low'') issues\<rparr>,
       by_category = category_stats cats issues,
       stats_repos = repo_stats st\<rparr>)"

text \<open>
  The run of \<open>fetch_all\<close> up to the point where it writes: the configuration, the loop
  from the empty state (a new client starts with \<open>remaining = 5000\<close>), the statistics.
\<close>

definition initial_state :: fetch_state where
  "initial_state = \<lparr>gh = \<lparr>remaining = 5000\<rparr>, all_issues = [], issues_by_repo = [], repo_stats = []\<rparr>"

definition fetch_data ::
  "library \<Rightarrow> clock \<Rightarrow> network \<Rightarrow> categories \<Rightarrow> (fetch_state \<times> stats) result" where
  "fetch_data lib clk urlopen cats =
     (let unique_repos = repo_to_category cats;
          total' = length unique_repos
      in bnd (fetch_loop lib clk urlopen unique_repos initial_state)
           (\<lambda>st. Inr (st, aggregate_stats clk cats total' st)))"

section \<open>The files\<close>

text \<open>
  What \<open>json.dump\<close> writes, as the JSON value \<open>json.load\<close> reads back: each dictionary
  literal of \<open>fetch_all\<close> with its keys in order.
\<close>

definition dump_issue :: "issue \<Rightarrow> json" where
  "dump_issue i = JDict
     [(str ''id'', issue_id i),
      (str ''repo'', JStr (repo i)),
      (str ''category'', JStr (category i)),
      (str ''category_label'', JStr (category_label i)),
      (str ''number'', number i),
      (str ''title'', title i),
      (str ''url'', url i),
      (str ''author'', author i),
      (str ''author_avatar'', author_avatar i),
      (str ''created_at'', created_at i),
      (str ''updated_at'', updated_at i),
      (str ''comments'', comments i),
      (str ''labels'', JList (map JStr (labels i))),
      (str ''body_preview'', JStr (body_preview i)),
      (str ''is_new'', JBool (is_new i)),
      (str ''priority'', JStr (priority i)),
      (str ''is_bug'', JBool (is_bug i)),
      (str ''is_feature'', JBool (is_feature i)),
      (str ''is_security'', JBool (is_security i)),
      (str ''is_good_first_issue'', JBool (is_good_first_issue i)),
      (str ''is_help_wanted'', JBool (is_help_wanted i))]"

definition dump_repo_stat :: "repo_stat \<Rightarrow> json" where
  "dump_repo_stat r = JDict
     [(str ''category'', JStr (rs_category r)),
      (str ''category_label'', JStr (rs_category_label r)),
      (str ''total_open_issues'', total_open_issues r),
      (str ''stars'', stars r),
      (str ''forks'', forks r),
      (str ''description'', rs_description r),
      (str ''fetched_issues'', JInt (int (fetched_issues r))),
      (str ''new_issues'', JInt (int (new_issues r))),
      (str ''bugs'', JInt (int (bugs r))),
      (str ''features'', JInt (int (features r))),
      (str ''good_first_issues'', JInt (int (good_first_issues r))),
      (str ''help_wanted'', JInt (int (help_wanted r)))]"

definition dump_category_stat :: "category_stat \<Rightarrow> json" where
  "dump_category_stat c = JDict
     [(str ''label'', JStr (cs_label c)),
      (str ''icon'', JStr (cs_icon c)),
      (str ''total_repos'', JInt (int (cs_total_repos c))),
      (str ''total_issues'', JInt (int (total_issues c))),
      (str ''new_issues'', JInt (int (cs_new_issues c))),
      (str ''good_first_issues'', JInt (int (cs_good_first_issues c)))]"

definition dump_dict :: "('a \<Rightarrow> json) \<Rightarrow> (pystr \<times> 'a) list \<Rightarrow> json" where
  "dump_dict f d = JDict (map (\<lambda>(k, v). (k, f v)) d)"

definition dump_stats :: "stats \<Rightarrow> json" where
  "dump_stats s = JDict
     [(str ''generated_at'', JStr (generated_at s)),
      (str ''lookback_days_new'', JInt (lookback_days_new s)),
      (str ''total_repos'', JInt (int (total_repos s))),
      (str ''total_issues_fetched'', JInt (int (total_issues_fetched s))),
      (str ''total_new_issues'', JInt (int (total_new_issues s))),
      (str ''total_bugs'', JInt (int (total_bugs s))),
      (str ''total_features'', JInt (int (total_features s))),
      (str ''total_security'', JInt (int (total_security s))),
      (str ''total_good_first_issues'', JInt (int (total_good_first_issues s))),
      (str ''total_help_wanted'', JInt (int (total_help_wanted s))),
      (str ''by_priority'', JDict
         [(str ''critical'', JInt (int (critical (by_priority s)))),
          (str ''high'', JInt (int (high (by_priority s)))),
          (str ''medium'', JInt (int (medium (by_priority s)))),
          (str ''low'', JInt (int (low (by_priority s))))]),
      (str ''by_category'', dump_dict dump_category_stat (by_category s)),
      (str ''repos'', dump_dict dump_repo_stat (stats_repos s))]"

text \<open>
  The files of the data directory and the page: the configuration, which is only read,
  and the four files a run writes. \<open>None\<close> is a file that does not exist. A script
  ends with the files it leaves and with \<open>Inr ()\<close> or the exception that stopped it.
\<close>

record files =
  repos_json :: "categories option"
  issues_json :: "json option"
  stats_json :: "json option"
  issues_by_repo_json :: "json option"
  index_html :: "pystr option"

text \<open>\<open>fetch_all\<close> writes its three files at its end: when it raises, no file has changed.\<close>

definition fetch_all ::
  "library \<Rightarrow> clock \<Rightarrow> network \<Rightarrow> files \<Rightarrow> unit result \<times> files" where
  "fetch_all lib clk urlopen fs =
     (case repos_json fs of
        None \<Rightarrow> (Inl FileNotFoundError, fs)
      | Some cats \<Rightarrow>
          (case fetch_data lib clk urlopen cats of
             Inl e \<Rightarrow> (Inl e, fs)
           | Inr (st, s) \<Rightarrow>
               (Inr (),
                fs\<lparr>issues_json := Some (JList (map dump_issue (all_issues st))),
                   stats_json := Some (dump_stats s),
                   issues_by_repo_json :=
                     Some (dump_dict (\<lambda>is. JList (map dump_issue is)) (issues_by_repo st))\<rparr>)))"

section \<open>Building the page\<close>

definition priority_order :: "(pystr \<times> nat) list" where
  "priority_order = [(str ''critical'', 0), (str ''high'', 1), (str ''medium'', 2), (str ''low'', 3)]"

text \<open>\<open>priority_order.get(p, 4)\<close>: a list or a dictionary cannot be hashed.\<close>

definition priority_rank :: "json \<Rightarrow> nat result" where
  "priority_rank p =
     (case p of
        JStr s \<Rightarrow> Inr (case map_of priority_order s of None \<Rightarrow> 4 | Some n \<Rightarrow> n)
      | JList xs \<Rightarrow> Inl TypeError
      | JDict d \<Rightarrow> Inl TypeError
      | _ \<Rightarrow> Inr 4)"

text \<open>
  The key of the sort: the rank of newness, the rank of the priority, and the value at
  \<open>created_at\<close>.
\<close>

definition issue_key :: "json \<Rightarrow> (nat \<times> nat \<times> json) result" where
  "issue_key i =
     (case i of
        JDict d \<Rightarrow>
          bnd (priority_rank (get_default d ''priority'' (JStr (str ''low'')))) (\<lambda>p.
          Inr (if truthy (get_default d ''is_new'' JNull) then 0 else 1, p,
               get_default d ''created_at'' (JStr [])))
      | _ \<Rightarrow> Inl AttributeError)"

definition is_string :: "json \<Rightarrow> bool" where
  "is_string v = (case v of JStr s \<Rightarrow> True | _ \<Rightarrow> False)"

definition string_of :: "json \<Rightarrow> pystr" where
  "string_of v = (case v of JStr s \<Rightarrow> s | _ \<Rightarrow> [])"

text \<open>
  \<open>sorted(all_issues, key=...)[:500]\<close>: the keys are computed first, the sort is stable.
  When every \<open>created_at\<close> is a string, any two keys can be compared (numbers, then
  strings by code points) and the result is the stable sort by the key. Otherwise it is
  what the runtime's algorithm makes of the keys.
\<close>

definition display_issues :: "library \<Rightarrow> json \<Rightarrow> json list result" where
  "display_issues lib loaded =
     (let all_issues = (case loaded of JList xs \<Rightarrow> xs | _ \<Rightarrow> [])
      in bnd (mapM issue_key all_issues) (\<lambda>keys.
         bnd (if list_all (\<lambda>(n, p, c). is_string c) keys
              then Inr (map snd
                     (sort_key fst
                        (zip (map (\<lambda>(n, p, c). (n, p, string_of c)) keys) all_issues)))
              else sorted_mixed lib keys all_issues) (\<lambda>sorted_issues.
         Inr (take 500 sorted_issues))))"

text \<open>
  The markup. The f-string templates of \<open>build_site\<close> are pure functions of the values
  named here and are kept abstract: the category cards from the statistics and the
  categories, the table row of one issue, the page from the statistics (with the bars
  of the top repositories, whose widths are floating-point numbers), the cards and the
  rows.
\<close>

record templates =
  category_cards :: "json \<Rightarrow> categories \<Rightarrow> pystr result"
  issue_row :: "json \<Rightarrow> pystr result"
  page :: "json \<Rightarrow> pystr \<Rightarrow> pystr \<Rightarrow> pystr result"

text \<open>
  The loop \<open>for iss in display_issues\<close>, which adds one row for each issue to
  \<open>issue_rows_html\<close>: the rows, in order.
\<close>

definition issue_rows :: "templates \<Rightarrow> json list \<Rightarrow> pystr list result" where
  "issue_rows tpl shown = mapM (issue_row tpl) shown"

definition placeholder_stats :: "clock \<Rightarrow> json" where
  "placeholder_stats clk = JDict
     [(str ''generated_at'', JStr (build_time clk)),
      (str ''total_repos'', JInt 108),
      (str ''total_issues_fetched'', JInt 0),
      (str ''total_new_issues'', JInt 0),
      (str ''total_bugs'', JInt 0),
      (str ''total_features'', JInt 0),
      (str ''total_good_first_issues'', JInt 0),
      (str ''total_help_wanted'', JInt 0),
      (str ''total_security'', JInt 0),
      (str ''by_priority'', JDict
         [(str ''critical'', JInt 0), (str ''high'', JInt 0),
          (str ''medium'', JInt 0), (str ''low'', JInt 0)]),
      (str ''by_category'', JDict []),
      (str ''repos'', JDict [])]"

definition load_json :: "json option \<Rightarrow> json" where
  "load_json f = (case f of None \<Rightarrow> JDict [] | Some v \<Rightarrow> v)"

text \<open>
  The page, from the three files as they are on disk: the category cards, then the
  sort, then the rows, then the page. \<open>build_site\<close> writes \<open>index.html\<close> at its end: when
  it raises, no file has changed.
\<close>

definition render ::
  "library \<Rightarrow> templates \<Rightarrow> clock \<Rightarrow> files \<Rightarrow> pystr result" where
  "render lib tpl clk fs =
     (let loaded_stats = load_json (stats_json fs);
          loaded_issues = load_json (issues_json fs);
          categories = (case repos_json fs of None \<Rightarrow> [] | Some cats \<Rightarrow> cats);
          stats = (if truthy loaded_stats then loaded_stats else placeholder_stats clk)
      in bnd (category_cards tpl stats categories) (\<lambda>cards.
         bnd (display_issues lib loaded_issues) (\<lambda>shown.
         bnd (issue_rows tpl shown) (\<lambda>rows.
         page tpl stats cards (concat rows)))))"

definition build_site ::
  "library \<Rightarrow> templates \<Rightarrow> clock \<Rightarrow> files \<Rightarrow> unit result \<times> files" where
  "build_site lib tpl clk fs =
     (case render lib tpl clk fs of
        Inl e \<Rightarrow> (Inl e, fs)
      | Inr html \<Rightarrow> (Inr (), fs\<lparr>index_html := Some html\<rparr>))"

text \<open>
  A run: \<open>fetch_issues.py\<close>, then, when it has not raised, \<open>build_site.py\<close> on the files
  it left.
\<close>

definition run ::
  "library \<Rightarrow> templates \<Rightarrow> clock \<Rightarrow> network \<Rightarrow> files \<Rightarrow> unit result \<times> files" where
  "run lib tpl clk urlopen fs =
     (case fetch_all lib clk urlopen fs of
        (Inl e, fs1) \<Rightarrow> (Inl e, fs1)
      | (Inr u, fs1) \<Rightarrow> build_site lib tpl clk fs1)"

definition outputs :: "files \<Rightarrow> json option \<times> json option \<times> json option \<times> pystr option" where
  "outputs fs = (issues_json fs, stats_json fs, issues_by_repo_json fs, index_html fs)"

section \<open>Example data\<close>

text \<open>
  A small world to run the program in: a runtime that leaves the characters beyond
  ASCII alone and reads one timestamp, one category with one repository, and an API that
  answers for it with an issue and a pull request.
\<close>

definition example_library :: library where
  "example_library =
     \<lparr>unicode_lower = (\<lambda>s i. [s ! i]),
      fromisoformat = (\<lambda>s. if s = str ''2024-05-01T12:00:00+00:00''
                            then Aware 1714564800000000 else Invalid),
      unicode_decimal = (\<lambda>c. None),
      int_max_str_digits = 4300,
      sorted_mixed = (\<lambda>keys items. Inl TypeError)\<rparr>"

definition example_clock :: clock where
  "example_clock =
     \<lparr>utcnow = (\<lambda>r k. 1714651200000000),
      time_time = (\<lambda>q. 1714651200),
      stats_time = str ''2024-05-02T12:00:05+00:00'',
      build_time = str ''2024-05-02T12:01:00+00:00''\<rparr>"

definition example_issue :: json where
  "example_issue = JDict
     [(str ''id'', JInt 101),
      (str ''number'', JInt 7),
      (str ''title'', JStr (str ''Crash on save'')),
      (str ''html_url'', JStr (str ''https://github.com/django/django/issues/7'')),
      (str ''user'', JDict [(str ''login'', JStr (str ''alice''))]),
      (str ''created_at'', JStr (str ''2024-05-01T12:00:00Z'')),
      (str ''comments'', JInt 2),
      (str ''labels'', JList [JDict [(str ''name'', JStr (str ''Type: Bug''))]]),
      (str ''body'', JStr (str ''  It crashes.'' @ [10] @ str ''See the log. ''))]"

definition example_pull_request :: json where
  "example_pull_request = JDict
     [(str ''id'', JInt 102),
      (str ''number'', JInt 8),
      (str ''title'', JStr (str ''Fix crash'')),
      (str ''html_url'', JStr (str ''https://github.com/django/django/pull/8'')),
      (str ''pull_request'', JDict [])]"

definition example_categories :: categories where
  "example_categories =
     [(str ''core'',
       \<lparr>label = str ''Core'', icon = str ''*'', description = str ''The framework'',
        repos = [str ''django/django'']\<rparr>)]"

definition example_network :: network where
  "example_network req =
     (case req of
        IssuesRequest r n \<Rightarrow>
          if r = str ''django/django''
          then Response (Some (str ''4999'')) (Some (JList [example_pull_request, example_issue]))
          else HTTPError 404 None
      | RepoRequest r \<Rightarrow>
          if r = str ''django/django''
          then Response (Some (str ''4998'')) (Some (JDict [(str ''open_issues_count'', JInt 3)]))
          else HTTPError 404 None)"

definition example_templates :: templates where
  "example_templates =
     \<lparr>category_cards = (\<lambda>stats cats. Inr (concat (map fst cats))),
      issue_row = (\<lambda>i. case i of
                          JDict d \<Rightarrow> Inr (35 # string_of (get_default d ''title'' (JStr [])))
                        | _ \<Rightarrow> Inl AttributeError),
      page = (\<lambda>stats cards rows. Inr (cards @ rows))\<rparr>"

definition example_files :: files where
  "example_files =
     \<lparr>repos_json = Some example_categories, issues_json = None, stats_json = None,
      issues_by_repo_json = None, index_html = None\<rparr>"

text \<open>
  Six issues as \<open>build_site\<close> loads them, with the fields the sort reads, and a world in
  which the API answers with an issue that has no \<open>id\<close>.
\<close>

definition example_row :: "bool \<Rightarrow> string \<Rightarrow> string \<Rightarrow> json" where
  "example_row new prio created = JDict
     [(str ''is_new'', JBool new),
      (str ''priority'', JStr (str prio)),
      (str ''created_at'', JStr (str created))]"

definition example_loaded :: json where
  "example_loaded = JList
     [example_row False ''high'' ''2024-01-02'',
      example_row True ''low'' ''2024-03-01'',
      example_row True ''critical'' ''2024-04-01'',
      example_row True ''low'' ''2024-02-15'',
      example_row True ''urgent'' ''2024-01-01'',
      example_row True ''medium'' ''2024-03-15'']"

definition example_bad_network :: network where
  "example_bad_network req =
     (case req of
        IssuesRequest r n \<Rightarrow> Response None (Some (JList [JDict [(str ''number'', JInt 9)]]))
      | RepoRequest r \<Rightarrow> Failure)"

definition example_stale_files :: files where
  "example_stale_files =
     \<lparr>repos_json = Some example_categories,
      issues_json = Some (JList [JInt 1]),
      stats_json = Some (JStr (str ''old'')),
      issues_by_repo_json = None,
      index_html = Some (str ''stale'')\<rparr>"

section \<open>Evaluation\<close>

text \<open>The definitions of the model, for running it on the example data.\<close>

lemmas model_defs =
  str_def bnd_def dict_get_def get_default_def subscript_def lower_at_def lower_def any_in_def
  GOOD_FIRST_ISSUE_LABELS_def bug_keywords_def feature_keywords_def security_keywords_def
  help_wanted_keywords_def classify_issue_def replace_def isspace_def strip_def
  LOOKBACK_DAYS_NEW_def MAX_ISSUES_PER_REPO_def label_names_def as_str_def created_is_new_def
  body_or_empty_def make_preview_def user_field_def process_issue_def
  int_space_def decimal_def MAX_SLEEP_def item_def is_string_def string_of_def issue_rows_def
  render_def
  unsigned_int_def py_int_def header_int_def get_def get_repo_info_def has_pull_request_def
  get_open_issues_def count_if_def add_repo_def repo_to_category_def info_field_def
  fetch_repo_def category_stats_def aggregate_stats_def initial_state_def fetch_data_def
  dump_issue_def dump_repo_stat_def dump_category_stat_def dump_dict_def dump_stats_def
  fetch_all_def priority_order_def priority_rank_def issue_key_def display_issues_def
  placeholder_stats_def load_json_def build_site_def run_def outputs_def
  example_library_def example_clock_def example_issue_def example_pull_request_def
  example_categories_def example_network_def example_templates_def example_files_def
  example_row_def example_loaded_def example_bad_network_def example_stale_files_def
  Let_def enumerate_eq_zip upt_rec

section \<open>Strings\<close>





section \<open>Classification\<close>






section \<open>Results\<close>

lemma bnd_Inr: "bnd m f = Inr y \<longleftrightarrow> (\<exists>x. m = Inr x \<and> f x = Inr y)"
  by (cases m) (auto simp: bnd_def)

lemma mapM_Inr:
  "mapM f xs = Inr ys \<longleftrightarrow> list_all2 (\<lambda>x y. f x = Inr y) xs ys"
proof (induction xs arbitrary: ys)
  case Nil
  show ?case by auto
next
  case (Cons x xs)
  show ?case
    by (cases ys) (auto simp: bnd_Inr Cons.IH)
qed

section \<open>The preview\<close>

lemma replace_single: "replace c [t] s = map (\<lambda>x. if x = c then t else x) s"
  unfolding replace_def by (induction s) auto

lemma strip_parts:
  "\<exists>l t. s = l @ strip s @ t \<and> (\<forall>c\<in>set l. isspace c) \<and> (\<forall>c\<in>set t. isspace c)"
proof -
  let ?m = "dropWhile isspace s"
  have "s = takeWhile isspace s @ ?m"
    by simp
  moreover have "?m = strip s @ rev (takeWhile isspace (rev ?m))"
    unfolding strip_def by (metis rev_append rev_rev_ident takeWhile_dropWhile_id)
  ultimately have "s = takeWhile isspace s @ strip s @ rev (takeWhile isspace (rev ?m))"
    by simp
  moreover have "\<forall>c\<in>set (takeWhile isspace s). isspace c"
    by (auto dest: set_takeWhileD)
  moreover have "\<forall>c\<in>set (rev (takeWhile isspace (rev ?m))). isspace c"
    by (auto dest: set_takeWhileD)
  ultimately show ?thesis by blast
qed

lemma strip_ends:
  "strip s \<noteq> [] \<Longrightarrow> \<not> isspace (hd (strip s)) \<and> \<not> isspace (last (strip s))"
proof -
  assume ne: "strip s \<noteq> []"
  let ?m = "dropWhile isspace s"
  let ?n = "dropWhile isspace (rev ?m)"
  have n: "?n \<noteq> []" using ne by (simp add: strip_def)
  then have "\<not> isspace (hd ?n)" by (rule hd_dropWhile)
  then have l: "\<not> isspace (last (strip s))"
    using n by (simp add: strip_def last_rev)
  from n have m: "?m \<noteq> []" by (metis dropWhile.simps(1) rev_is_Nil_conv)
  then have "\<not> isspace (hd ?m)" by (rule hd_dropWhile)
  moreover have "hd (strip s) = hd ?m"
  proof -
    obtain t where "?m = strip s @ t"
      unfolding strip_def by (metis rev_append rev_rev_ident takeWhile_dropWhile_id)
    then show ?thesis using ne by (metis hd_append2)
  qed
  ultimately show ?thesis using l by simp
qed

lemma process_issue_preview:
  assumes "process_issue lib now (JDict d) r ck cl = Inr i"
  shows "\<exists>body. body_or_empty d = Inr body \<and> body_preview i = make_preview body"
  using assms unfolding process_issue_def Let_def
  by (auto simp: bnd_Inr)

lemma process_issue_dict:
  assumes "process_issue lib now raw r ck cl = Inr i"
  shows "\<exists>d. raw = JDict d"
  using assms unfolding process_issue_def by (cases raw) auto

text \<open>
  Claim C5. For every raw issue that \<open>process_issue\<close> turns into a record, the preview
  is empty when the body is absent or null, and for a body that is a string it is the
  first 400 characters with each newline replaced by a space and the whitespace at both
  ends stripped, followed by three dots exactly when the body has more than 400
  characters.
\<close>

theorem body_preview_first_400:
  assumes "process_issue lib now raw r ck cl = Inr i"
  shows "\<exists>d. raw = JDict d \<and>
     (dict_get d ''body'' = None \<or> dict_get d ''body'' = Some JNull \<longrightarrow> body_preview i = []) \<and>
     (\<forall>b. dict_get d ''body'' = Some (JStr b) \<longrightarrow>
        body_preview i =
          strip (map (\<lambda>x. if x = 10 then 32 else x) (take 400 b)) @
          (if length b > 400 then str ''...'' else []))"
proof -
  obtain d where raw: "raw = JDict d"
    using assms process_issue_dict by blast
  obtain body where body: "body_or_empty d = Inr body" "body_preview i = make_preview body"
    using assms process_issue_preview unfolding raw by blast
  have sp: "str '' '' = [32]"
    by (simp add: str_def)
  have none: "body = []" if "dict_get d ''body'' = None \<or> dict_get d ''body'' = Some JNull"
    using that body(1) by (auto simp: body_or_empty_def)
  have some: "body = b" if "dict_get d ''body'' = Some (JStr b)" for b
    using that body(1) by (auto simp: body_or_empty_def Let_def split: if_splits)
  have empty: "make_preview [] = []"
    by (simp add: make_preview_def strip_def replace_def)
  have full: "make_preview b =
      strip (map (\<lambda>x. if x = 10 then 32 else x) (take 400 b)) @
      (if length b > 400 then str ''...'' else [])" for b
    by (simp add: make_preview_def sp replace_single)
  show ?thesis
    using raw body(2) none some empty full by auto
qed

theorem body_preview_first_400_witness:
  "(case process_issue example_library 1714651200000000 example_issue
           (str ''django/django'') (str ''core'') (str ''Core'') of
      Inl e \<Rightarrow> False
    | Inr i \<Rightarrow> body_preview i = str ''It crashes. See the log.'')"
proof -
  let ?p = "process_issue example_library 1714651200000000 example_issue
           (str ''django/django'') (str ''core'') (str ''Core'')"
  have "\<not> isl ?p" by (simp add: model_defs)
  then obtain i where i: "?p = Inr i" by (cases ?p) auto
  obtain d where d: "example_issue = JDict d"
     and b: "\<forall>b. dict_get d ''body'' = Some (JStr b) \<longrightarrow>
        body_preview i =
          strip (map (\<lambda>x. if x = 10 then 32 else x) (take 400 b)) @
          (if length b > 400 then str ''...'' else [])"
    using body_preview_first_400 [OF i] by blast
  let ?b = "str ''  It crashes.'' @ [10] @ str ''See the log. ''"
  have "dict_get d ''body'' = Some (JStr ?b)"
    using d unfolding example_issue_def by (auto simp: dict_get_def str_def)
  then have "body_preview i =
          strip (map (\<lambda>x. if x = 10 then 32 else x) (take 400 ?b)) @
          (if length ?b > 400 then str ''...'' else [])"
    using b by blast
  also have "\<dots> = str ''It crashes. See the log.''"
    by (simp add: model_defs)
  finally show ?thesis using i by simp
qed

section \<open>The client\<close>

lemma without_pull_requests_filter:
  "without_pull_requests xs = Inr ys \<Longrightarrow> ys = filter (\<lambda>i. has_pull_request i = Inr False) xs"
proof (induction xs arbitrary: ys)
  case Nil
  then show ?case by simp
next
  case (Cons x xs)
  then show ?case
    by (auto simp: bnd_Inr split: if_splits)
qed

lemma has_pull_request_dict:
  "has_pull_request (JDict d) = Inr False \<longleftrightarrow> str ''pull_request'' \<notin> fst ` set d"
  by (auto simp: has_pull_request_def dict_get_def map_of_eq_None_iff)

text \<open>
  Claim C9. The list \<open>get_open_issues\<close> returns is what \<open>get\<close> returned, filtered: a
  response that is not a list gives the empty list, and of a list exactly the elements
  that do not contain \<open>pull_request\<close> are kept, in order; so no dictionary in the result
  has the key \<open>pull_request\<close>.
\<close>

theorem get_open_issues_excludes_pull_requests:
  assumes "get_open_issues lib clk urlopen self r n = Inr (ys, self')"
  shows "(\<forall>d. JDict d \<in> set ys \<longrightarrow> str ''pull_request'' \<notin> fst ` set d) \<and>
     (\<exists>items. get lib clk urlopen self (IssuesRequest r n) = Inr (items, self') \<and>
        (case items of
           JList xs \<Rightarrow> ys = filter (\<lambda>i. has_pull_request i = Inr False) xs
         | _ \<Rightarrow> ys = []))"
proof -
  obtain items s1 where g1: "get lib clk urlopen self (IssuesRequest r n) = Inr (items, s1)"
    and c: "(case items of
            JList xs \<Rightarrow> bnd (without_pull_requests xs) (\<lambda>ys. Inr (ys, s1))
          | _ \<Rightarrow> Inr ([], s1)) = Inr (ys, self')"
    using assms unfolding get_open_issues_def by (auto simp: bnd_Inr)
  have "s1 = self'"
    using c by (cases items) (auto simp: bnd_Inr)
  with g1 have g: "get lib clk urlopen self (IssuesRequest r n) = Inr (items, self')"
    by simp
  have shape: "(case items of
           JList xs \<Rightarrow> ys = filter (\<lambda>i. has_pull_request i = Inr False) xs
         | _ \<Rightarrow> ys = [])"
    using c by (cases items) (auto simp: bnd_Inr dest: without_pull_requests_filter)
  have "\<forall>i\<in>set ys. has_pull_request i = Inr False"
    using shape by (cases items) auto
  then have "\<forall>d. JDict d \<in> set ys \<longrightarrow> str ''pull_request'' \<notin> fst ` set d"
    using has_pull_request_dict by blast
  with g shape show ?thesis by blast
qed

theorem get_open_issues_excludes_pull_requests_witness:
  "get_open_issues example_library example_clock example_network \<lparr>remaining = 5000\<rparr> (str ''django/django'') 30 =
     Inr ([example_issue], \<lparr>remaining = 4999\<rparr>) \<and>
   str ''pull_request'' \<in> fst ` set (case example_pull_request of JDict d \<Rightarrow> d) \<and>
   str ''pull_request'' \<notin> fst ` set (case example_issue of JDict d \<Rightarrow> d)"
proof -
  have ev: "get_open_issues example_library example_clock example_network \<lparr>remaining = 5000\<rparr> (str ''django/django'') 30 =
     Inr ([example_issue], \<lparr>remaining = 4999\<rparr>)"
    by (simp add: model_defs)
  have "example_issue = JDict (case example_issue of JDict d \<Rightarrow> d)"
    by (simp add: example_issue_def)
  then have "JDict (case example_issue of JDict d \<Rightarrow> d) \<in> set [example_issue]"
    by simp
  then have "str ''pull_request'' \<notin> fst ` set (case example_issue of JDict d \<Rightarrow> d)"
    using get_open_issues_excludes_pull_requests [OF ev] by blast
  moreover have "str ''pull_request'' \<in> fst ` set (case example_pull_request of JDict d \<Rightarrow> d)"
    by (simp add: example_pull_request_def)
  ultimately show ?thesis using ev by simp
qed

text \<open>
  \<open>get\<close> raises in the handler of a 403 only, when fewer than ten requests remain:
  \<open>ValueError\<close> when the reset header is not a number, \<open>OverflowError\<close> when the wait is
  too long for \<open>time.sleep\<close>. Everywhere else it returns, and a failure gives the empty
  list. What it returns does not depend on the state of the client.
\<close>

lemma get_raises_only_in_handler:
  "get lib clk urlopen self req = Inl e \<longleftrightarrow>
     remaining self < 10 \<and>
     (\<exists>h. urlopen req = HTTPError 403 h \<and>
        (case header_int lib h of
           None \<Rightarrow> e = ValueError
         | Some reset \<Rightarrow> e = OverflowError \<and> MAX_SLEEP < max (reset - time_time clk req) 60))"
  unfolding get_def Let_def
  by (auto split: http_outcome.splits option.splits if_splits)

lemma get_failure_empty:
  "urlopen req = Failure \<or> (\<exists>h. urlopen req = HTTPError 404 h) \<Longrightarrow>
     get lib clk urlopen self req = Inr (JList [], self)"
  unfolding get_def by auto

lemma get_payload:
  assumes "get lib clk urlopen self req = Inr (v, s1)"
    and "get lib clk urlopen self2 req = Inr (v2, s2)"
  shows "v = v2"
  using assms unfolding get_def Let_def
  by (auto split: http_outcome.splits option.splits if_splits)

lemma get_open_issues_payload:
  assumes "get_open_issues lib clk urlopen self r n = Inr (ys, s1)"
    and "get_open_issues lib clk urlopen self2 r n = Inr (ys2, s2)"
  shows "ys = ys2"
proof -
  from assms(1) obtain v t1 where
    g1: "get lib clk urlopen self (IssuesRequest r n) = Inr (v, t1)"
    and c1: "(case v of
            JList xs \<Rightarrow> bnd (without_pull_requests xs) (\<lambda>ys. Inr (ys, t1))
          | _ \<Rightarrow> Inr ([], t1)) = Inr (ys, s1)"
    unfolding get_open_issues_def by (auto simp: bnd_Inr)
  from assms(2) obtain v2 t2 where
    g2: "get lib clk urlopen self2 (IssuesRequest r n) = Inr (v2, t2)"
    and c2: "(case v2 of
            JList xs \<Rightarrow> bnd (without_pull_requests xs) (\<lambda>ys. Inr (ys, t2))
          | _ \<Rightarrow> Inr ([], t2)) = Inr (ys2, s2)"
    unfolding get_open_issues_def by (auto simp: bnd_Inr)
  have "v = v2" using g1 g2 by (rule get_payload)
  with c1 c2 show ?thesis
    by (cases v) (auto simp: bnd_Inr)
qed

text \<open>\<open>int\<close> on some header values.\<close>

lemma py_int_examples:
  "py_int example_library (str '' 1_000 '') = Some 1000 \<and>
   py_int example_library (str ''-42'') = Some (- 42) \<and>
   py_int example_library (str ''soon'') = None \<and>
   py_int example_library (str ''1__0'') = None \<and>
   py_int example_library ([28] @ str ''5'') = None \<and>
   py_int example_library ([160] @ str ''5'') = Some 5"
  by (simp add: model_defs)

text \<open>
  Claim C8, at the input where the code leaves it. The API answers the issue request of
  the only repository with an empty list and no requests remaining, and the repository
  request with a 403 whose \<open>X-RateLimit-Reset\<close> header is not a number: \<open>int\<close> raises
  inside the handler, \<open>get\<close> lets the \<open>ValueError\<close> through and the run stops.
\<close>

theorem get_propagates_from_handler:
  "get example_library example_clock (\<lambda>req. HTTPError 403 (Some (str ''soon'')))
       \<lparr>remaining = 0\<rparr> (RepoRequest (str ''django/django'')) = Inl ValueError \<and>
   fetch_data example_library example_clock
     (\<lambda>req. case req of
        IssuesRequest r n \<Rightarrow> Response (Some (str ''0'')) (Some (JList []))
      | RepoRequest r \<Rightarrow> HTTPError 403 (Some (str ''soon'')))
     example_categories = Inl ValueError"
  by (simp add: model_defs)

section \<open>Dictionaries and counts\<close>

lemma map_of_dict_set: "map_of (dict_set d k v) = (map_of d)(k \<mapsto> v)"
  by (induction d k v rule: dict_set.induct) auto

lemma dict_set_new: "k \<notin> fst ` set d \<Longrightarrow> dict_set d k v = d @ [(k, v)]"
  by (induction d k v rule: dict_set.induct) auto

lemma keys_dict_set:
  "fst ` set (dict_set d k v) = insert k (fst ` set d)"
  by (induction d k v rule: dict_set.induct) auto

lemma distinct_dict_set:
  "distinct (map fst d) \<Longrightarrow> distinct (map fst (dict_set d k v))"
proof (induction d k v rule: dict_set.induct)
  case (1 k v)
  then show ?case by simp
next
  case (2 k' v' d k v)
  show ?case
  proof (cases "k' = k")
    case True
    with 2 show ?thesis by simp
  next
    case False
    have "k' \<notin> fst ` set (dict_set d k v)"
      using False "2.prems" by (auto simp: keys_dict_set)
    with False 2 show ?thesis by simp
  qed
qed

lemma count_if_length: "count_if p xs = length (filter p xs)"
  unfolding count_if_def by (induction xs) auto

lemma count_if_partition:
  assumes "\<forall>x\<in>set xs. f x \<in> {a, b, c, d}" and "distinct [a, b, c, d]"
  shows "count_if (\<lambda>x. f x = a) xs + count_if (\<lambda>x. f x = b) xs +
         count_if (\<lambda>x. f x = c) xs + count_if (\<lambda>x. f x = d) xs = length xs"
  using assms unfolding count_if_length by (induction xs) auto

section \<open>The configuration\<close>

lemma add_repo_keys:
  "fst ` set (add_repo ck cl m r) = insert r (fst ` set m)"
  unfolding add_repo_def
  by (auto simp: keys_dict_set map_of_eq_None_iff)

lemma add_repo_distinct:
  "distinct (map fst m) \<Longrightarrow> distinct (map fst (add_repo ck cl m r))"
  unfolding add_repo_def by (simp add: distinct_dict_set)

lemma foldl_add_repo:
  "distinct (map fst m) \<Longrightarrow>
   distinct (map fst (foldl (add_repo ck cl) m rs)) \<and>
   fst ` set (foldl (add_repo ck cl) m rs) = fst ` set m \<union> set rs"
  by (induction rs arbitrary: m) (auto simp: add_repo_keys add_repo_distinct)

lemma repo_to_category_fold:
  "distinct (map fst m) \<Longrightarrow>
   distinct (map fst (foldl (\<lambda>m (cat_key, cat_data).
       foldl (add_repo cat_key (label cat_data)) m (repos cat_data)) m cats)) \<and>
   fst ` set (foldl (\<lambda>m (cat_key, cat_data).
       foldl (add_repo cat_key (label cat_data)) m (repos cat_data)) m cats) =
     fst ` set m \<union> (\<Union>c\<in>set cats. set (repos (snd c)))"
proof (induction cats arbitrary: m)
  case Nil
  then show ?case by simp
next
  case (Cons c cats)
  obtain k cd where c: "c = (k, cd)" by (cases c)
  let ?m = "foldl (add_repo k (label cd)) m (repos cd)"
  have m: "distinct (map fst ?m)" "fst ` set ?m = fst ` set m \<union> set (repos cd)"
    using foldl_add_repo [OF Cons.prems] by auto
  show ?case
    using Cons.IH [OF m(1)] m(2) c by auto
qed

lemma unique_repos:
  "distinct (map fst (repo_to_category cats)) \<and>
   set (map fst (repo_to_category cats)) = (\<Union>c\<in>set cats. set (repos (snd c)))"
  using repo_to_category_fold [of "[]" cats] unfolding repo_to_category_def by simp

lemma length_unique_repos:
  "length (repo_to_category cats) = card (\<Union>c\<in>set cats. set (repos (snd c)))"
proof -
  have "length (repo_to_category cats) = length (map fst (repo_to_category cats))"
    by simp
  also have "\<dots> = card (set (map fst (repo_to_category cats)))"
    using unique_repos by (metis distinct_card)
  finally show ?thesis using unique_repos by metis
qed

section \<open>The loop over the repositories\<close>

lemma fetch_repo_Inr:
  assumes "fetch_repo lib clk urlopen st (r, ck, cl) = Inr st'"
  obtains raws gh1 ps info where
    "get_open_issues lib clk urlopen (gh st) r MAX_ISSUES_PER_REPO = Inr (raws, gh1)"
    "list_all2 (\<lambda>(k, raw) i. process_issue lib (utcnow clk r k) raw r ck cl = Inr i)
       (enumerate 0 raws) ps"
    "all_issues st' = all_issues st @ ps"
    "issues_by_repo st' = dict_set (issues_by_repo st) r ps"
    "repo_stats st' = dict_set (repo_stats st) r
       \<lparr>rs_category = ck,
        rs_category_label = cl,
        total_open_issues = info_field info ''open_issues_count'' (JInt (int (length ps))),
        stars = info_field info ''stargazers_count'' (JInt 0),
        forks = info_field info ''forks_count'' (JInt 0),
        rs_description = info_field info ''description'' (JStr []),
        fetched_issues = length ps,
        new_issues = count_if is_new ps,
        bugs = count_if is_bug ps,
        features = count_if is_feature ps,
        good_first_issues = count_if is_good_first_issue ps,
        help_wanted = count_if is_help_wanted ps\<rparr>"
proof -
  from assms obtain raws gh1 ps info gh2 where
    a: "get_open_issues lib clk urlopen (gh st) r MAX_ISSUES_PER_REPO = Inr (raws, gh1)"
    and b: "mapM (\<lambda>(k, raw). process_issue lib (utcnow clk r k) raw r ck cl)
               (enumerate 0 raws) = Inr ps"
    and c: "get_repo_info lib clk urlopen gh1 r = Inr (info, gh2)"
    and d: "st' = \<lparr>gh = gh2,
             all_issues = all_issues st @ ps,
             issues_by_repo = dict_set (issues_by_repo st) r ps,
             repo_stats = dict_set (repo_stats st) r
               \<lparr>rs_category = ck,
                rs_category_label = cl,
                total_open_issues =
                  info_field info ''open_issues_count'' (JInt (int (length ps))),
                stars = info_field info ''stargazers_count'' (JInt 0),
                forks = info_field info ''forks_count'' (JInt 0),
                rs_description = info_field info ''description'' (JStr []),
                fetched_issues = length ps,
                new_issues = count_if is_new ps,
                bugs = count_if is_bug ps,
                features = count_if is_feature ps,
                good_first_issues = count_if is_good_first_issue ps,
                help_wanted = count_if is_help_wanted ps\<rparr>\<rparr>"
    unfolding fetch_repo_def by (auto simp: bnd_Inr)
  from b have "list_all2 (\<lambda>(k, raw) i. process_issue lib (utcnow clk r k) raw r ck cl = Inr i)
       (enumerate 0 raws) ps"
    by (simp add: mapM_Inr case_prod_unfold)
  with a d that show thesis by simp
qed

text \<open>
  Induction over the loop: an invariant of the state and of the entries done so far
  that holds at the start and is kept by every round holds at the end.
\<close>

lemma fetch_loop_invariant:
  assumes "fetch_loop lib clk urlopen es st = Inr st'"
    and "I done st"
    and "\<And>done e st st1. I done st \<Longrightarrow> fetch_repo lib clk urlopen st e = Inr st1 \<Longrightarrow>
           I (done @ [e]) st1"
  shows "I (done @ es) st'"
  using assms(1,2)
proof (induction es arbitrary: st "done")
  case Nil
  then show ?case by simp
next
  case (Cons e es)
  from Cons.prems(1) obtain st1 where
    s: "fetch_repo lib clk urlopen st e = Inr st1" "fetch_loop lib clk urlopen es st1 = Inr st'"
    by (auto simp: bnd_Inr)
  have "I (done @ [e]) st1"
    using assms(3) Cons.prems(2) s(1) by blast
  from Cons.IH [OF s(2) this] show ?case by simp
qed

lemma process_issue_fields:
  assumes "process_issue lib now raw r ck cl = Inr i"
  shows "repo i = r" "category i = ck" "category_label i = cl"
    "\<exists>ls. priority i = priority (classify_issue (unicode_lower lib) ls)"
  using assms unfolding process_issue_def Let_def
  by (auto simp: bnd_Inr split: json.splits)

lemma classify_priority_range:
  "priority (classify_issue ext ls) \<in> {str ''critical'', str ''high'', str ''medium'', str ''low''}"
  unfolding classify_issue_def Let_def by simp

lemma process_issue_priority:
  assumes "process_issue lib now raw r ck cl = Inr i"
  shows "priority i \<in> {str ''critical'', str ''high'', str ''medium'', str ''low''}"
  using process_issue_fields(4) [OF assms] classify_priority_range by metis

lemma priorities_distinct:
  "distinct [str ''critical'', str ''high'', str ''medium'', str ''low'']"
  by code_simp

text \<open>What every round adds to \<open>all_issues\<close> came out of \<open>process_issue\<close>.\<close>

lemma fetch_repo_produced:
  assumes "fetch_repo lib clk urlopen st (r, ck, cl) = Inr st'"
    and "i \<in> set (all_issues st')" and "i \<notin> set (all_issues st)"
  shows "\<exists>now raw. process_issue lib now raw r ck cl = Inr i"
proof -
  from assms(1) obtain raws gh1 ps info where
    p: "list_all2 (\<lambda>(k, raw) i. process_issue lib (utcnow clk r k) raw r ck cl = Inr i)
       (enumerate 0 raws) ps"
    and a: "all_issues st' = all_issues st @ ps"
    by (rule fetch_repo_Inr)
  from a assms(2,3) have "i \<in> set ps" by auto
  then obtain n where n: "n < length ps" "ps ! n = i"
    by (auto simp: in_set_conv_nth)
  from p n have "(\<lambda>(k, raw) i. process_issue lib (utcnow clk r k) raw r ck cl = Inr i)
      (enumerate 0 raws ! n) i"
    by (auto simp: list_all2_conv_all_nth)
  then show ?thesis by (auto simp: case_prod_unfold)
qed

lemma fetch_loop_produced:
  assumes "fetch_loop lib clk urlopen es st = Inr st'"
    and "\<forall>i\<in>set (all_issues st). \<exists>now raw r ck cl. process_issue lib now raw r ck cl = Inr i"
  shows "\<forall>i\<in>set (all_issues st'). \<exists>now raw r ck cl. process_issue lib now raw r ck cl = Inr i"
proof -
  let ?I = "\<lambda>(d::(pystr \<times> pystr \<times> pystr) list) st.
     \<forall>i\<in>set (all_issues st). \<exists>now raw r ck cl. process_issue lib now raw r ck cl = Inr i"
  have "?I ([] @ es) st'"
  proof (rule fetch_loop_invariant [OF assms(1), where I = ?I])
    show "?I [] st" using assms(2) .
  next
    fix d e st st1
    assume inv: "?I d st" and step: "fetch_repo lib clk urlopen st e = Inr st1"
    obtain r ck cl where e: "e = (r, ck, cl)" by (cases e)
    show "?I (d @ [e]) st1"
    proof
      fix i assume "i \<in> set (all_issues st1)"
      then show "\<exists>now raw r ck cl. process_issue lib now raw r ck cl = Inr i"
        using inv fetch_repo_produced [OF step [unfolded e]] by (cases "i \<in> set (all_issues st)") blast+
    qed
  qed
  then show ?thesis by simp
qed

lemma fetch_data_Inr:
  assumes "fetch_data lib clk urlopen cats = Inr (st, s)"
  shows "fetch_loop lib clk urlopen (repo_to_category cats) initial_state = Inr st"
    and "s = aggregate_stats clk cats (length (repo_to_category cats)) st"
  using assms unfolding fetch_data_def Let_def by (auto simp: bnd_Inr)

lemma fetch_data_produced:
  assumes "fetch_data lib clk urlopen cats = Inr (st, s)"
  shows "\<forall>i\<in>set (all_issues st). \<exists>now raw r ck cl. process_issue lib now raw r ck cl = Inr i"
  using fetch_loop_produced [OF fetch_data_Inr(1) [OF assms]]
  by (simp add: initial_state_def)

text \<open>
  Claim C3. In every run each processed issue record has one of the four priorities,
  and the four counts of \<open>by_priority\<close> add up to \<open>total_issues_fetched\<close>.
\<close>

theorem by_priority_sums_to_total:
  assumes "fetch_data lib clk urlopen cats = Inr (st, s)"
  shows "(\<forall>i\<in>set (all_issues st).
            priority i \<in> {str ''critical'', str ''high'', str ''medium'', str ''low''}) \<and>
         critical (by_priority s) + high (by_priority s) + medium (by_priority s) +
           low (by_priority s) = total_issues_fetched s"
proof -
  have range: "\<forall>i\<in>set (all_issues st).
      priority i \<in> {str ''critical'', str ''high'', str ''medium'', str ''low''}"
    using fetch_data_produced [OF assms] process_issue_priority by blast
  have s: "s = aggregate_stats clk cats (length (repo_to_category cats)) st"
    using fetch_data_Inr(2) [OF assms] .
  have "count_if (\<lambda>i. priority i = str ''critical'') (all_issues st) +
        count_if (\<lambda>i. priority i = str ''high'') (all_issues st) +
        count_if (\<lambda>i. priority i = str ''medium'') (all_issues st) +
        count_if (\<lambda>i. priority i = str ''low'') (all_issues st) = length (all_issues st)"
    using range priorities_distinct by (rule count_if_partition)
  then show ?thesis
    using range unfolding s aggregate_stats_def Let_def by simp
qed

theorem by_priority_sums_to_total_witness:
  "(case fetch_data example_library example_clock example_network example_categories of
      Inl e \<Rightarrow> False
    | Inr (st, s) \<Rightarrow>
        map priority (all_issues st) = [str ''high''] \<and>
        critical (by_priority s) + high (by_priority s) + medium (by_priority s) +
          low (by_priority s) = total_issues_fetched s \<and>
        total_issues_fetched s = 1)"
proof -
  let ?f = "fetch_data example_library example_clock example_network example_categories"
  have "\<not> isl ?f" by (simp add: model_defs)
  then obtain st s where f: "?f = Inr (st, s)" by (cases ?f) auto
  have a: "map priority (all_issues (fst (projr ?f))) = [str ''high'']"
    by (simp add: model_defs)
  have b: "total_issues_fetched (snd (projr ?f)) = 1"
    by (simp add: model_defs)
  show ?thesis
    using by_priority_sums_to_total [OF f] a b unfolding f by simp
qed

section \<open>The statistics\<close>

lemma filter_concat_own:
  assumes "distinct (map fst d)"
    and "\<forall>(r, ps)\<in>set d. \<forall>i\<in>set ps. f i = r"
    and "map_of d r = Some ps"
  shows "filter (\<lambda>i. f i = r) (concat (map snd d)) = ps"
  using assms
proof (induction d)
  case Nil
  then show ?case by simp
next
  case (Cons e d)
  obtain r' ps' where e: "e = (r', ps')" by (cases e)
  have own: "\<forall>i\<in>set ps'. f i = r'"
    using Cons.prems(2) e by auto
  show ?case
  proof (cases "r' = r")
    case True
    with Cons.prems(3) e have ps: "ps' = ps" by simp
    have "r \<notin> fst ` set d"
      using Cons.prems(1) e True by auto
    then have "\<forall>(r'', qs)\<in>set d. \<forall>i\<in>set qs. f i \<noteq> r"
      using Cons.prems(2) by force
    then have "filter (\<lambda>i. f i = r) (concat (map snd d)) = []"
      by (induction d) auto
    moreover have "filter (\<lambda>i. f i = r) ps' = ps'"
      using own True by (simp add: filter_id_conv)
    ultimately show ?thesis using e ps by simp
  next
    case False
    then have "filter (\<lambda>i. f i = r) ps' = []"
      using own by (auto simp: filter_empty_conv)
    moreover have "filter (\<lambda>i. f i = r) (concat (map snd d)) = ps"
      using Cons.IH Cons.prems e False by auto
    ultimately show ?thesis using e by simp
  qed
qed

text \<open>One round of the loop, by what it leaves in the state.\<close>

lemma fetch_repo_round:
  assumes "fetch_repo lib clk urlopen st (r, ck, cl) = Inr st'"
  obtains ps rs where
    "all_issues st' = all_issues st @ ps"
    "issues_by_repo st' = dict_set (issues_by_repo st) r ps"
    "repo_stats st' = dict_set (repo_stats st) r rs"
    "\<forall>i\<in>set ps. repo i = r \<and> category i = ck"
    "fetched_issues rs = length ps"
    "new_issues rs = length (filter is_new ps)"
    "bugs rs = length (filter is_bug ps)"
    "features rs = length (filter is_feature ps)"
    "good_first_issues rs = length (filter is_good_first_issue ps)"
    "help_wanted rs = length (filter is_help_wanted ps)"
proof -
  from assms obtain raws gh1 ps info where
    p: "list_all2 (\<lambda>(k, raw) i. process_issue lib (utcnow clk r k) raw r ck cl = Inr i)
       (enumerate 0 raws) ps"
    and a: "all_issues st' = all_issues st @ ps"
    and b: "issues_by_repo st' = dict_set (issues_by_repo st) r ps"
    and c: "repo_stats st' = dict_set (repo_stats st) r
       \<lparr>rs_category = ck,
        rs_category_label = cl,
        total_open_issues = info_field info ''open_issues_count'' (JInt (int (length ps))),
        stars = info_field info ''stargazers_count'' (JInt 0),
        forks = info_field info ''forks_count'' (JInt 0),
        rs_description = info_field info ''description'' (JStr []),
        fetched_issues = length ps,
        new_issues = count_if is_new ps,
        bugs = count_if is_bug ps,
        features = count_if is_feature ps,
        good_first_issues = count_if is_good_first_issue ps,
        help_wanted = count_if is_help_wanted ps\<rparr>"
    by (rule fetch_repo_Inr)
  have own: "\<forall>i\<in>set ps. repo i = r \<and> category i = ck"
  proof
    fix i assume "i \<in> set ps"
    then obtain n where n: "n < length ps" "ps ! n = i"
      by (auto simp: in_set_conv_nth)
    from p n have "(\<lambda>(k, raw) i. process_issue lib (utcnow clk r k) raw r ck cl = Inr i)
        (enumerate 0 raws ! n) i"
      by (auto simp: list_all2_conv_all_nth)
    then have "process_issue lib (utcnow clk r (fst (enumerate 0 raws ! n)))
        (snd (enumerate 0 raws ! n)) r ck cl = Inr i"
      by (simp add: case_prod_unfold)
    then show "repo i = r \<and> category i = ck"
      using process_issue_fields(1,2) by blast
  qed
  show thesis
    by (rule that [OF a b c own]) (simp_all add: count_if_length)
qed

text \<open>
  The state of the loop after the entries \<open>done\<close>, when no repository occurs twice: the
  keys of \<open>issues_by_repo\<close> are the repositories seen, each with the records made for
  it, and \<open>all_issues\<close> is the concatenation of these lists.
\<close>

lemma fetch_loop_lists:
  assumes "fetch_loop lib clk urlopen es initial_state = Inr st"
    and "distinct (map fst es)"
  shows "map fst (issues_by_repo st) = map fst es \<and>
         all_issues st = concat (map snd (issues_by_repo st)) \<and>
         (\<forall>(r, ps)\<in>set (issues_by_repo st). \<forall>i\<in>set ps. repo i = r)"
proof -
  let ?B = "\<lambda>d st.
     map fst (issues_by_repo st) = map fst d \<and>
     all_issues st = concat (map snd (issues_by_repo st)) \<and>
     (\<forall>(r, ps)\<in>set (issues_by_repo st). \<forall>i\<in>set ps. repo i = r)"
  let ?I = "\<lambda>(d::(pystr \<times> pystr \<times> pystr) list) st. distinct (map fst d) \<longrightarrow> ?B d st"
  have "?I ([] @ es) st"
  proof (rule fetch_loop_invariant [OF assms(1), where I = ?I])
    show "?I [] initial_state"
      by (simp add: initial_state_def)
  next
    fix d e st0 st1
    assume inv: "?I d st0" and step: "fetch_repo lib clk urlopen st0 e = Inr st1"
    obtain r ck cl where e: "e = (r, ck, cl)" by (cases e)
    show "?I (d @ [e]) st1"
    proof
      assume "distinct (map fst (d @ [e]))"
      then have dd: "distinct (map fst d)" and new: "r \<notin> fst ` set d"
        using e by auto
      from inv dd have B: "?B d st0" by (rule mp)
      then have k: "map fst (issues_by_repo st0) = map fst d"
        and c: "all_issues st0 = concat (map snd (issues_by_repo st0))"
        and o: "\<forall>(r, ps)\<in>set (issues_by_repo st0). \<forall>i\<in>set ps. repo i = r"
        by simp_all
      from k have "set (map fst (issues_by_repo st0)) = set (map fst d)" by (rule arg_cong)
      then have keys: "fst ` set (issues_by_repo st0) = fst ` set d" by simp
      from step [unfolded e] obtain ps rs where
        a: "all_issues st1 = all_issues st0 @ ps"
        and b: "issues_by_repo st1 = dict_set (issues_by_repo st0) r ps"
        and own: "\<forall>i\<in>set ps. repo i = r \<and> category i = ck"
        by (rule fetch_repo_round)
      have b': "issues_by_repo st1 = issues_by_repo st0 @ [(r, ps)]"
        using b new keys by (simp add: dict_set_new)
      have 1: "map fst (issues_by_repo st1) = map fst (d @ [e])"
        using b' k e by simp
      have 2: "all_issues st1 = concat (map snd (issues_by_repo st1))"
        using a b' c by simp
      have 3: "\<forall>(r, ps)\<in>set (issues_by_repo st1). \<forall>i\<in>set ps. repo i = r"
        using b' o own by auto
      from 1 2 3 show "?B (d @ [e]) st1" by (intro conjI)
    qed
  qed
  then show ?thesis using assms(2) by simp
qed

text \<open>The statistics of a repository count the records of its own list.\<close>

lemma fetch_loop_repo_stats:
  assumes "fetch_loop lib clk urlopen es st0 = Inr st"
    and "repo_stats st0 = []"
    and "map_of (repo_stats st) r = Some rs"
  shows "\<exists>ps. map_of (issues_by_repo st) r = Some ps \<and>
              fetched_issues rs = length ps \<and>
              new_issues rs = length (filter is_new ps) \<and>
              bugs rs = length (filter is_bug ps) \<and>
              features rs = length (filter is_feature ps) \<and>
              good_first_issues rs = length (filter is_good_first_issue ps) \<and>
              help_wanted rs = length (filter is_help_wanted ps)"
proof -
  let ?C = "\<lambda>rs ps. fetched_issues rs = length ps \<and>
              new_issues rs = length (filter is_new ps) \<and>
              bugs rs = length (filter is_bug ps) \<and>
              features rs = length (filter is_feature ps) \<and>
              good_first_issues rs = length (filter is_good_first_issue ps) \<and>
              help_wanted rs = length (filter is_help_wanted ps)"
  let ?I = "\<lambda>(d::(pystr \<times> pystr \<times> pystr) list) st.
     \<forall>r rs. map_of (repo_stats st) r = Some rs \<longrightarrow>
        (\<exists>ps. map_of (issues_by_repo st) r = Some ps \<and> ?C rs ps)"
  have "?I ([] @ es) st"
  proof (rule fetch_loop_invariant [OF assms(1), where I = ?I])
    show "?I [] st0" using assms(2) by simp
  next
    fix d e sta stb
    assume inv: "?I d sta" and step: "fetch_repo lib clk urlopen sta e = Inr stb"
    obtain r ck cl where e: "e = (r, ck, cl)" by (cases e)
    from step [unfolded e] obtain ps rs where
      b: "issues_by_repo stb = dict_set (issues_by_repo sta) r ps"
      and c: "repo_stats stb = dict_set (repo_stats sta) r rs"
      and n: "?C rs ps"
      by (rule fetch_repo_round) blast
    show "?I (d @ [e]) stb"
    proof (intro allI impI)
      fix r' rs' assume m: "map_of (repo_stats stb) r' = Some rs'"
      show "\<exists>ps. map_of (issues_by_repo stb) r' = Some ps \<and> ?C rs' ps"
      proof (cases "r' = r")
        case True
        with m c have "rs' = rs" by (simp add: map_of_dict_set)
        moreover have "map_of (issues_by_repo stb) r' = Some ps"
          using True b by (simp add: map_of_dict_set)
        ultimately show ?thesis using n by blast
      next
        case False
        with m c have "map_of (repo_stats sta) r' = Some rs'"
          by (simp add: map_of_dict_set)
        then obtain qs where "map_of (issues_by_repo sta) r' = Some qs" "?C rs' qs"
          using inv by blast
        moreover have "map_of (issues_by_repo stb) r' = map_of (issues_by_repo sta) r'"
          using False b by (simp add: map_of_dict_set)
        ultimately show ?thesis by metis
      qed
    qed
  qed
  then show ?thesis using assms(3) by simp
qed

lemma category_stats_fold:
  assumes "\<forall>k cs. map_of acc k = Some cs \<longrightarrow>
             total_issues cs = length (filter (\<lambda>i. category i = k) issues) \<and>
             cs_new_issues cs = length (filter (\<lambda>i. category i = k \<and> is_new i) issues) \<and>
             cs_good_first_issues cs =
               length (filter (\<lambda>i. category i = k \<and> is_good_first_issue i) issues)"
    and "map_of (foldl (\<lambda>acc (cat_key, cat_data).
              let cat_issues = filter (\<lambda>i. category i = cat_key) issues
              in dict_set acc cat_key
                   \<lparr>cs_label = label cat_data,
                    cs_icon = icon cat_data,
                    cs_total_repos = length (repos cat_data),
                    total_issues = length cat_issues,
                    cs_new_issues = count_if is_new cat_issues,
                    cs_good_first_issues = count_if is_good_first_issue cat_issues\<rparr>)
       acc cats) k = Some cs"
  shows "total_issues cs = length (filter (\<lambda>i. category i = k) issues) \<and>
         cs_new_issues cs = length (filter (\<lambda>i. category i = k \<and> is_new i) issues) \<and>
         cs_good_first_issues cs =
           length (filter (\<lambda>i. category i = k \<and> is_good_first_issue i) issues)"
  using assms
proof (induction cats arbitrary: acc)
  case Nil
  then show ?case by simp
next
  case (Cons c cats)
  obtain ck cd where c: "c = (ck, cd)" by (cases c)
  let ?acc = "dict_set acc ck
       \<lparr>cs_label = label cd, cs_icon = icon cd, cs_total_repos = length (repos cd),
        total_issues = length (filter (\<lambda>i. category i = ck) issues),
        cs_new_issues = count_if is_new (filter (\<lambda>i. category i = ck) issues),
        cs_good_first_issues =
          count_if is_good_first_issue (filter (\<lambda>i. category i = ck) issues)\<rparr>"
  have inv: "\<forall>k cs. map_of ?acc k = Some cs \<longrightarrow>
             total_issues cs = length (filter (\<lambda>i. category i = k) issues) \<and>
             cs_new_issues cs = length (filter (\<lambda>i. category i = k \<and> is_new i) issues) \<and>
             cs_good_first_issues cs =
               length (filter (\<lambda>i. category i = k \<and> is_good_first_issue i) issues)"
    using Cons.prems(1)
    by (auto simp: map_of_dict_set count_if_length conj_commute)
  show ?case
    by (rule Cons.IH [OF inv]) (use Cons.prems(2) c in \<open>simp add: Let_def\<close>)
qed

lemma category_stats_counts:
  assumes "map_of (category_stats cats issues) k = Some cs"
  shows "total_issues cs = length (filter (\<lambda>i. category i = k) issues) \<and>
         cs_new_issues cs = length (filter (\<lambda>i. category i = k \<and> is_new i) issues) \<and>
         cs_good_first_issues cs =
           length (filter (\<lambda>i. category i = k \<and> is_good_first_issue i) issues)"
  by (rule category_stats_fold [of "[]"]) (use assms in \<open>simp_all add: category_stats_def\<close>)

lemma fetch_loop_repo_keys:
  assumes "fetch_loop lib clk urlopen es st0 = Inr st"
    and "repo_stats st0 = []"
  shows "fst ` set (repo_stats st) = fst ` set es"
proof -
  let ?I = "\<lambda>(d::(pystr \<times> pystr \<times> pystr) list) st. fst ` set (repo_stats st) = fst ` set d"
  have "?I ([] @ es) st"
  proof (rule fetch_loop_invariant [OF assms(1), where I = ?I])
    show "?I [] st0" using assms(2) by simp
  next
    fix d e sta stb
    assume inv: "?I d sta" and step: "fetch_repo lib clk urlopen sta e = Inr stb"
    obtain r ck cl where e: "e = (r, ck, cl)" by (cases e)
    from step [unfolded e] obtain ps rs where
      "repo_stats stb = dict_set (repo_stats sta) r rs"
      by (rule fetch_repo_round)
    then show "?I (d @ [e]) stb"
      using inv e by (simp add: keys_dict_set)
  qed
  then show ?thesis by simp
qed

lemma foldl_dict_set_keys:
  "fst ` set (foldl (\<lambda>acc c. dict_set acc (fst c) (f c)) acc cats) =
     fst ` set acc \<union> fst ` set cats"
  by (induction cats arbitrary: acc) (auto simp: keys_dict_set)

lemma by_category_keys:
  "fst ` set (category_stats cats issues) = fst ` set cats"
proof -
  have "category_stats cats issues =
      foldl (\<lambda>acc c. dict_set acc (fst c)
           \<lparr>cs_label = label (snd c),
            cs_icon = icon (snd c),
            cs_total_repos = length (repos (snd c)),
            total_issues = length (filter (\<lambda>i. category i = fst c) issues),
            cs_new_issues = count_if is_new (filter (\<lambda>i. category i = fst c) issues),
            cs_good_first_issues =
              count_if is_good_first_issue (filter (\<lambda>i. category i = fst c) issues)\<rparr>)
        [] cats"
    unfolding category_stats_def Let_def by (simp add: case_prod_unfold)
  then show ?thesis
    by (simp only: foldl_dict_set_keys) simp
qed

lemma map_of_key:
  "k \<in> fst ` set d \<Longrightarrow> \<exists>v. map_of d k = Some v"
  by (cases "map_of d k") (auto simp: map_of_eq_None_iff)

text \<open>
  Claim C1. In every run, the repository statistics have an entry for each repository of
  the configuration and no other, and the entry counts the records processed for that
  repository (the list stored for it, which is the part of the full list with that
  repository's name): all of them, and those with each flag. The totals of the aggregate
  statistics count the full list of records the same way. The category statistics have
  an entry for each category of the configuration and no other, and the entry counts the
  records of the full list with that category.
\<close>

theorem stats_count_the_records:
  assumes "fetch_data lib clk urlopen cats = Inr (st, s)"
  shows "fst ` set (stats_repos s) = (\<Union>c\<in>set cats. set (repos (snd c))) \<and>
         (\<forall>r\<in>(\<Union>c\<in>set cats. set (repos (snd c))).
            \<exists>rs ps. map_of (stats_repos s) r = Some rs \<and>
               map_of (issues_by_repo st) r = Some ps \<and>
               ps = filter (\<lambda>i. repo i = r) (all_issues st) \<and>
               fetched_issues rs = length ps \<and>
               new_issues rs = length (filter is_new ps) \<and>
               bugs rs = length (filter is_bug ps) \<and>
               features rs = length (filter is_feature ps) \<and>
               good_first_issues rs = length (filter is_good_first_issue ps) \<and>
               help_wanted rs = length (filter is_help_wanted ps)) \<and>
         total_issues_fetched s = length (all_issues st) \<and>
         total_new_issues s = length (filter is_new (all_issues st)) \<and>
         total_bugs s = length (filter is_bug (all_issues st)) \<and>
         total_features s = length (filter is_feature (all_issues st)) \<and>
         total_security s = length (filter is_security (all_issues st)) \<and>
         total_good_first_issues s = length (filter is_good_first_issue (all_issues st)) \<and>
         total_help_wanted s = length (filter is_help_wanted (all_issues st)) \<and>
         fst ` set (by_category s) = fst ` set cats \<and>
         (\<forall>k\<in>fst ` set cats.
            \<exists>cs. map_of (by_category s) k = Some cs \<and>
              total_issues cs = length (filter (\<lambda>i. category i = k) (all_issues st)) \<and>
              cs_new_issues cs =
                length (filter (\<lambda>i. category i = k \<and> is_new i) (all_issues st)) \<and>
              cs_good_first_issues cs =
                length (filter (\<lambda>i. category i = k \<and> is_good_first_issue i) (all_issues st)))"
proof -
  have loop: "fetch_loop lib clk urlopen (repo_to_category cats) initial_state = Inr st"
    and s: "s = aggregate_stats clk cats (length (repo_to_category cats)) st"
    using fetch_data_Inr [OF assms] by simp_all
  have sr: "stats_repos s = repo_stats st" and bc: "by_category s = category_stats cats (all_issues st)"
    by (simp_all add: s aggregate_stats_def Let_def)
  have dist: "distinct (map fst (repo_to_category cats))"
    and uniq: "fst ` set (repo_to_category cats) = (\<Union>c\<in>set cats. set (repos (snd c)))"
    using unique_repos [of cats] by simp_all
  have lists: "distinct (map fst (issues_by_repo st))"
      "all_issues st = concat (map snd (issues_by_repo st))"
      "\<forall>(r, ps)\<in>set (issues_by_repo st). \<forall>i\<in>set ps. repo i = r"
    using fetch_loop_lists [OF loop dist] dist by simp_all
  have keys: "fst ` set (stats_repos s) = (\<Union>c\<in>set cats. set (repos (snd c)))"
    unfolding sr using fetch_loop_repo_keys [OF loop] uniq by (simp add: initial_state_def)
  have repos: "\<exists>rs ps. map_of (stats_repos s) r = Some rs \<and>
               map_of (issues_by_repo st) r = Some ps \<and>
               ps = filter (\<lambda>i. repo i = r) (all_issues st) \<and>
               fetched_issues rs = length ps \<and>
               new_issues rs = length (filter is_new ps) \<and>
               bugs rs = length (filter is_bug ps) \<and>
               features rs = length (filter is_feature ps) \<and>
               good_first_issues rs = length (filter is_good_first_issue ps) \<and>
               help_wanted rs = length (filter is_help_wanted ps)"
    if "r \<in> (\<Union>c\<in>set cats. set (repos (snd c)))" for r
  proof -
    have "fst ` set (repo_stats st) = (\<Union>c\<in>set cats. set (repos (snd c)))"
      using keys unfolding sr .
    with that have "r \<in> fst ` set (repo_stats st)"
      by (rule ssubst [where P = "\<lambda>A. r \<in> A", rotated])
    then have "\<exists>rs. map_of (repo_stats st) r = Some rs"
      by (rule map_of_key)
    then obtain rs where rs: "map_of (repo_stats st) r = Some rs" ..
    then obtain ps where ps: "map_of (issues_by_repo st) r = Some ps"
      and n: "fetched_issues rs = length ps \<and>
              new_issues rs = length (filter is_new ps) \<and>
              bugs rs = length (filter is_bug ps) \<and>
              features rs = length (filter is_feature ps) \<and>
              good_first_issues rs = length (filter is_good_first_issue ps) \<and>
              help_wanted rs = length (filter is_help_wanted ps)"
      using fetch_loop_repo_stats [OF loop] by (auto simp: initial_state_def)
    have "filter (\<lambda>i. repo i = r) (all_issues st) = ps"
      unfolding lists(2) by (rule filter_concat_own [OF lists(1) lists(3) ps])
    with rs ps n show ?thesis unfolding sr by simp
  qed
  have totals: "total_issues_fetched s = length (all_issues st) \<and>
         total_new_issues s = length (filter is_new (all_issues st)) \<and>
         total_bugs s = length (filter is_bug (all_issues st)) \<and>
         total_features s = length (filter is_feature (all_issues st)) \<and>
         total_security s = length (filter is_security (all_issues st)) \<and>
         total_good_first_issues s = length (filter is_good_first_issue (all_issues st)) \<and>
         total_help_wanted s = length (filter is_help_wanted (all_issues st))"
    by (simp add: s aggregate_stats_def Let_def count_if_length)
  have ckeys: "fst ` set (by_category s) = fst ` set cats"
    unfolding bc by (rule by_category_keys)
  have cats: "\<exists>cs. map_of (by_category s) k = Some cs \<and>
            total_issues cs = length (filter (\<lambda>i. category i = k) (all_issues st)) \<and>
            cs_new_issues cs =
              length (filter (\<lambda>i. category i = k \<and> is_new i) (all_issues st)) \<and>
            cs_good_first_issues cs =
              length (filter (\<lambda>i. category i = k \<and> is_good_first_issue i) (all_issues st))"
    if "k \<in> fst ` set cats" for k
  proof -
    from that ckeys have "k \<in> fst ` set (by_category s)"
      by (rule ssubst [where P = "\<lambda>A. k \<in> A", rotated])
    then have "\<exists>cs. map_of (by_category s) k = Some cs"
      by (rule map_of_key)
    then obtain cs where cs: "map_of (by_category s) k = Some cs" ..
    then have "map_of (category_stats cats (all_issues st)) k = Some cs"
      unfolding bc .
    from category_stats_counts [OF this] cs show ?thesis by blast
  qed
  have A: "\<forall>r\<in>(\<Union>c\<in>set cats. set (repos (snd c))).
            \<exists>rs ps. map_of (stats_repos s) r = Some rs \<and>
               map_of (issues_by_repo st) r = Some ps \<and>
               ps = filter (\<lambda>i. repo i = r) (all_issues st) \<and>
               fetched_issues rs = length ps \<and>
               new_issues rs = length (filter is_new ps) \<and>
               bugs rs = length (filter is_bug ps) \<and>
               features rs = length (filter is_feature ps) \<and>
               good_first_issues rs = length (filter is_good_first_issue ps) \<and>
               help_wanted rs = length (filter is_help_wanted ps)"
    using repos by (intro ballI)
  have B: "\<forall>k\<in>fst ` set cats.
            \<exists>cs. map_of (by_category s) k = Some cs \<and>
              total_issues cs = length (filter (\<lambda>i. category i = k) (all_issues st)) \<and>
              cs_new_issues cs =
                length (filter (\<lambda>i. category i = k \<and> is_new i) (all_issues st)) \<and>
              cs_good_first_issues cs =
                length (filter (\<lambda>i. category i = k \<and> is_good_first_issue i) (all_issues st))"
    using cats by (intro ballI)
  show ?thesis
    using keys A totals ckeys B
    apply (intro conjI)
    apply (elim conjE, assumption)+
    done
qed

theorem stats_count_the_records_witness:
  "(case fetch_data example_library example_clock example_network example_categories of
      Inl e \<Rightarrow> False
    | Inr (st, s) \<Rightarrow>
        map fst (stats_repos s) = [str ''django/django''] \<and>
        map fst (by_category s) = [str ''core''] \<and>
        (case map_of (stats_repos s) (str ''django/django'') of
           None \<Rightarrow> False
         | Some rs \<Rightarrow>
             bugs rs = length (filter is_bug
               (filter (\<lambda>i. repo i = str ''django/django'') (all_issues st))) \<and>
             bugs rs = 1) \<and>
        (case map_of (by_category s) (str ''core'') of
           None \<Rightarrow> False
         | Some cs \<Rightarrow>
             total_issues cs = length (filter (\<lambda>i. category i = str ''core'') (all_issues st)) \<and>
             total_issues cs = 1 \<and> cs_new_issues cs = 1 \<and> cs_good_first_issues cs = 0) \<and>
        total_bugs s = length (filter is_bug (all_issues st)) \<and>
        total_bugs s = 1)"
proof -
  let ?f = "fetch_data example_library example_clock example_network example_categories"
  have "\<not> isl ?f" by (simp add: model_defs)
  then obtain st s where f: "?f = Inr (st, s)" by (cases ?f) auto
  have "map fst (stats_repos (snd (projr ?f))) = [str ''django/django''] \<and>
        map fst (by_category (snd (projr ?f))) = [str ''core''] \<and>
        total_bugs (snd (projr ?f)) = 1"
    by (simp add: model_defs)
  then have k: "map fst (stats_repos s) = [str ''django/django'']"
    "map fst (by_category s) = [str ''core'']" "total_bugs s = 1"
    unfolding f by simp_all
  have "bugs (the (map_of (stats_repos (snd (projr ?f))) (str ''django/django''))) = 1"
    by (simp add: model_defs)
  then have b: "bugs (the (map_of (stats_repos s) (str ''django/django''))) = 1"
    unfolding f by simp
  have "total_issues (the (map_of (by_category (snd (projr ?f))) (str ''core''))) = 1 \<and>
        cs_new_issues (the (map_of (by_category (snd (projr ?f))) (str ''core''))) = 1 \<and>
        cs_good_first_issues (the (map_of (by_category (snd (projr ?f))) (str ''core''))) = 0"
    by (simp add: model_defs)
  then have c: "total_issues (the (map_of (by_category s) (str ''core''))) = 1"
    "cs_new_issues (the (map_of (by_category s) (str ''core''))) = 1"
    "cs_good_first_issues (the (map_of (by_category s) (str ''core''))) = 0"
    unfolding f by simp_all
  have r: "str ''django/django'' \<in> (\<Union>c\<in>set example_categories. set (repos (snd c)))"
    by (simp add: example_categories_def)
  have g: "str ''core'' \<in> fst ` set example_categories"
    by (simp add: example_categories_def)
  note t = stats_count_the_records [OF f]
  from t have t1: "\<forall>r\<in>(\<Union>c\<in>set example_categories. set (repos (snd c))).
            \<exists>rs ps. map_of (stats_repos s) r = Some rs \<and>
               map_of (issues_by_repo st) r = Some ps \<and>
               ps = filter (\<lambda>i. repo i = r) (all_issues st) \<and>
               fetched_issues rs = length ps \<and>
               new_issues rs = length (filter is_new ps) \<and>
               bugs rs = length (filter is_bug ps) \<and>
               features rs = length (filter is_feature ps) \<and>
               good_first_issues rs = length (filter is_good_first_issue ps) \<and>
               help_wanted rs = length (filter is_help_wanted ps)"
    by (elim conjE)
  from t have t2: "\<forall>k\<in>fst ` set example_categories.
            \<exists>cs. map_of (by_category s) k = Some cs \<and>
              total_issues cs = length (filter (\<lambda>i. category i = k) (all_issues st)) \<and>
              cs_new_issues cs =
                length (filter (\<lambda>i. category i = k \<and> is_new i) (all_issues st)) \<and>
              cs_good_first_issues cs =
                length (filter (\<lambda>i. category i = k \<and> is_good_first_issue i) (all_issues st))"
    by (elim conjE)
  from t have tb: "total_bugs s = length (filter is_bug (all_issues st))"
    by (elim conjE)
  from t1 r obtain rs ps where rs: "map_of (stats_repos s) (str ''django/django'') = Some rs"
    and "ps = filter (\<lambda>i. repo i = str ''django/django'') (all_issues st)"
    and "bugs rs = length (filter is_bug ps)"
    by (elim ballE [where x = "str ''django/django''"]) auto
  then have rb: "bugs rs = length (filter is_bug
               (filter (\<lambda>i. repo i = str ''django/django'') (all_issues st)))"
    by simp
  from t2 g obtain cs where cs: "map_of (by_category s) (str ''core'') = Some cs"
    and ct: "total_issues cs = length (filter (\<lambda>i. category i = str ''core'') (all_issues st))"
    by (elim ballE [where x = "str ''core''"]) auto
  from k b c rs rb cs ct tb show ?thesis
    unfolding f by simp
qed

section \<open>The bound on the issue lists\<close>

lemma get_list_payload:
  assumes "get lib clk urlopen self req = Inr (JList xs, self')"
  shows "xs = [] \<or> (\<exists>rem. urlopen req = Response rem (Some (JList xs)))"
  using assms unfolding get_def
  by (auto split: http_outcome.splits option.splits if_splits)

lemma get_open_issues_length:
  assumes "get_open_issues lib clk urlopen self r n = Inr (ys, self')"
    and "\<forall>rem xs. urlopen (IssuesRequest r n) = Response rem (Some (JList xs)) \<longrightarrow>
           length xs \<le> n"
  shows "length ys \<le> n"
proof -
  obtain items s1 where g: "get lib clk urlopen self (IssuesRequest r n) = Inr (items, s1)"
    and c: "(case items of
            JList xs \<Rightarrow> bnd (without_pull_requests xs) (\<lambda>ys. Inr (ys, s1))
          | _ \<Rightarrow> Inr ([], s1)) = Inr (ys, self')"
    using assms(1) unfolding get_open_issues_def by (auto simp: bnd_Inr)
  show ?thesis
  proof (cases items)
    case (JList xs)
    with c have "ys = filter (\<lambda>i. has_pull_request i = Inr False) xs"
      by (auto simp: bnd_Inr dest: without_pull_requests_filter)
    then have "length ys \<le> length xs" by simp
    moreover have "length xs \<le> n"
      using get_list_payload [OF g [unfolded JList]] assms(2) by auto
    ultimately show ?thesis by simp
  qed (use c in auto)
qed

lemma fetch_repo_length:
  assumes "fetch_repo lib clk urlopen st (r, ck, cl) = Inr st'"
    and "\<forall>rem xs. urlopen (IssuesRequest r MAX_ISSUES_PER_REPO) = Response rem (Some (JList xs)) \<longrightarrow>
           length xs \<le> MAX_ISSUES_PER_REPO"
  obtains ps where
    "all_issues st' = all_issues st @ ps"
    "issues_by_repo st' = dict_set (issues_by_repo st) r ps"
    "length ps \<le> MAX_ISSUES_PER_REPO"
proof -
  from assms(1) obtain raws gh1 ps info where
    g: "get_open_issues lib clk urlopen (gh st) r MAX_ISSUES_PER_REPO = Inr (raws, gh1)"
    and p: "list_all2 (\<lambda>(k, raw) i. process_issue lib (utcnow clk r k) raw r ck cl = Inr i)
       (enumerate 0 raws) ps"
    and a: "all_issues st' = all_issues st @ ps"
    and b: "issues_by_repo st' = dict_set (issues_by_repo st) r ps"
    by (rule fetch_repo_Inr)
  from p have "length ps = length raws"
    by (auto dest: list_all2_lengthD)
  with get_open_issues_length [OF g assms(2)] have "length ps \<le> MAX_ISSUES_PER_REPO"
    by simp
  with a b that show thesis by blast
qed

lemma set_dict_set: "set (dict_set d k v) \<subseteq> insert (k, v) (set d)"
  by (induction d k v rule: dict_set.induct) auto

lemma fetch_loop_lengths:
  assumes "fetch_loop lib clk urlopen es initial_state = Inr st"
    and "\<forall>r rem xs. urlopen (IssuesRequest r MAX_ISSUES_PER_REPO) = Response rem (Some (JList xs)) \<longrightarrow>
           length xs \<le> MAX_ISSUES_PER_REPO"
  shows "(\<forall>(r, ps)\<in>set (issues_by_repo st). length ps \<le> MAX_ISSUES_PER_REPO) \<and>
         length (all_issues st) \<le> MAX_ISSUES_PER_REPO * length es"
proof -
  let ?I = "\<lambda>(d::(pystr \<times> pystr \<times> pystr) list) st.
     (\<forall>(r, ps)\<in>set (issues_by_repo st). length ps \<le> MAX_ISSUES_PER_REPO) \<and>
     length (all_issues st) \<le> MAX_ISSUES_PER_REPO * length d"
  have "?I ([] @ es) st"
  proof (rule fetch_loop_invariant [OF assms(1), where I = ?I])
    show "?I [] initial_state"
      by (simp add: initial_state_def)
  next
    fix d e st0 st1
    assume inv: "?I d st0" and step: "fetch_repo lib clk urlopen st0 e = Inr st1"
    obtain r ck cl where e: "e = (r, ck, cl)" by (cases e)
    have h: "\<forall>rem xs. urlopen (IssuesRequest r MAX_ISSUES_PER_REPO) =
        Response rem (Some (JList xs)) \<longrightarrow> length xs \<le> MAX_ISSUES_PER_REPO"
      using assms(2) by blast
    obtain ps where
      a: "all_issues st1 = all_issues st0 @ ps"
      and b: "issues_by_repo st1 = dict_set (issues_by_repo st0) r ps"
      and l: "length ps \<le> MAX_ISSUES_PER_REPO"
      by (rule fetch_repo_length [OF step [unfolded e] h])
    have 1: "\<forall>(r, ps)\<in>set (issues_by_repo st1). length ps \<le> MAX_ISSUES_PER_REPO"
      using inv l set_dict_set [of "issues_by_repo st0" r ps] unfolding b by auto
    have 2: "length (all_issues st1) \<le> MAX_ISSUES_PER_REPO * length (d @ [e])"
      using inv l a by simp
    from 1 2 show "?I (d @ [e]) st1" by (rule conjI)
  qed
  then show ?thesis by simp
qed

text \<open>
  Claim C4. When every answer to an issue request of the run holds at most the
  \<open>per_page = 30\<close> items asked for, the list of records processed for a repository has
  at most 30 elements, and the full list of the run at most 30 times the number of
  different repositories of the configuration.
\<close>

theorem at_most_30_issues_per_repo:
  assumes "fetch_data lib clk urlopen cats = Inr (st, s)"
    and "\<forall>r rem xs. urlopen (IssuesRequest r MAX_ISSUES_PER_REPO) = Response rem (Some (JList xs)) \<longrightarrow>
           length xs \<le> MAX_ISSUES_PER_REPO"
  shows "(\<forall>(r, ps)\<in>set (issues_by_repo st). length ps \<le> 30) \<and>
         length (all_issues st) \<le> 30 * card (\<Union>c\<in>set cats. set (repos (snd c)))"
proof -
  have loop: "fetch_loop lib clk urlopen (repo_to_category cats) initial_state = Inr st"
    using fetch_data_Inr(1) [OF assms(1)] .
  have "(\<forall>(r, ps)\<in>set (issues_by_repo st). length ps \<le> MAX_ISSUES_PER_REPO) \<and>
         length (all_issues st) \<le> MAX_ISSUES_PER_REPO * length (repo_to_category cats)"
    using loop assms(2) by (rule fetch_loop_lengths)
  then show ?thesis
    by (simp add: MAX_ISSUES_PER_REPO_def length_unique_repos)
qed

theorem at_most_30_issues_per_repo_witness:
  "(case fetch_data example_library example_clock example_network example_categories of
      Inl e \<Rightarrow> False
    | Inr (st, s) \<Rightarrow>
        map (\<lambda>(r, ps). length ps) (issues_by_repo st) = [1] \<and>
        list_all (\<lambda>(r, ps). length ps \<le> 30) (issues_by_repo st) \<and>
        length (all_issues st) \<le> 30 * card (\<Union>c\<in>set example_categories. set (repos (snd c))))"
proof -
  let ?f = "fetch_data example_library example_clock example_network example_categories"
  have "\<not> isl ?f" by (simp add: model_defs)
  then obtain st s where f: "?f = Inr (st, s)" by (cases ?f) auto
  have h: "\<forall>r rem xs. example_network (IssuesRequest r MAX_ISSUES_PER_REPO) =
       Response rem (Some (JList xs)) \<longrightarrow> length xs \<le> MAX_ISSUES_PER_REPO"
    by (auto simp: example_network_def MAX_ISSUES_PER_REPO_def split: if_splits)
  have "map (\<lambda>(r, ps). length ps) (issues_by_repo (fst (projr ?f))) = [1]"
    by (simp add: model_defs)
  then have one: "map (\<lambda>(r, ps). length ps) (issues_by_repo st) = [1]"
    unfolding f by simp
  from at_most_30_issues_per_repo [OF f h] one show ?thesis
    unfolding f by (simp add: list_all_iff)
qed

section \<open>The order of the table\<close>








section \<open>The files of a run\<close>

lemma fetch_all_ok:
  assumes "fetch_all lib clk urlopen fs = (Inr u, fs')"
  obtains cats st s where
    "repos_json fs = Some cats"
    "fetch_data lib clk urlopen cats = Inr (st, s)"
    "fs' = fs\<lparr>issues_json := Some (JList (map dump_issue (all_issues st))),
              stats_json := Some (dump_stats s),
              issues_by_repo_json :=
                Some (dump_dict (\<lambda>is. JList (map dump_issue is)) (issues_by_repo st))\<rparr>"
  using assms unfolding fetch_all_def
  by (auto split: option.splits sum.splits)

lemma fetch_all_raises:
  "fetch_all lib clk urlopen fs = (Inl e, fs') \<Longrightarrow> fs' = fs"
  unfolding fetch_all_def by (auto split: option.splits sum.splits)

lemma build_site_ok:
  assumes "build_site lib tpl clk fs = (Inr u, fs')"
  obtains html where
    "render lib tpl clk fs = Inr html"
    "fs' = fs\<lparr>index_html := Some html\<rparr>"
  using assms unfolding build_site_def
  by (auto split: sum.splits)

lemma build_site_raises:
  "build_site lib tpl clk fs = (Inl e, fs') \<Longrightarrow> fs' = fs"
  unfolding build_site_def by (auto split: sum.splits)

lemma run_ok:
  assumes "run lib tpl clk urlopen fs = (Inr u, fs')"
  obtains fs1 where
    "fetch_all lib clk urlopen fs = (Inr (), fs1)"
    "build_site lib tpl clk fs1 = (Inr (), fs')"
proof -
  obtain res fs1 where f: "fetch_all lib clk urlopen fs = (res, fs1)"
    by (cases "fetch_all lib clk urlopen fs")
  with assms have "res = Inr ()" and "build_site lib tpl clk fs1 = (Inr (), fs')"
    unfolding run_def by (cases res; simp)+
  with f that show thesis by simp
qed

text \<open>The page is made from the three files that \<open>build_site\<close> loads.\<close>

lemma render_reads:
  assumes "stats_json fs1 = stats_json fs2" "issues_json fs1 = issues_json fs2"
    "repos_json fs1 = repos_json fs2"
  shows "render lib tpl clk fs1 = render lib tpl clk fs2"
  unfolding render_def using assms by simp

text \<open>
  The lists of the final state, repository by repository in the order of the
  configuration: each is what \<open>process_issue\<close> returned for the issues that
  \<open>get_open_issues\<close> returned for that repository, with the repository, its category and
  the clock reading of that call.
\<close>

lemma fetch_loop_produced_lists:
  assumes "fetch_loop lib clk urlopen es initial_state = Inr st"
    and "distinct (map fst es)"
  shows "list_all2
     (\<lambda>(r, ck, cl) (r', ps). r' = r \<and>
        (\<exists>self self' raws.
           get_open_issues lib clk urlopen self r MAX_ISSUES_PER_REPO = Inr (raws, self') \<and>
           list_all2 (\<lambda>(k, raw) i. process_issue lib (utcnow clk r k) raw r ck cl = Inr i)
             (enumerate 0 raws) ps))
     es (issues_by_repo st)"
proof -
  let ?P = "\<lambda>(r, ck, cl) (r', ps). r' = r \<and>
        (\<exists>self self' raws.
           get_open_issues lib clk urlopen self r MAX_ISSUES_PER_REPO = Inr (raws, self') \<and>
           list_all2 (\<lambda>(k, raw) i. process_issue lib (utcnow clk r k) raw r ck cl = Inr i)
             (enumerate 0 raws) ps)"
  let ?I = "\<lambda>(d::(pystr \<times> pystr \<times> pystr) list) st.
     distinct (map fst d) \<longrightarrow> list_all2 ?P d (issues_by_repo st)"
  have "?I ([] @ es) st"
  proof (rule fetch_loop_invariant [OF assms(1), where I = ?I])
    show "?I [] initial_state"
      by (simp add: initial_state_def)
  next
    fix d e st0 st1
    assume inv: "?I d st0" and step: "fetch_repo lib clk urlopen st0 e = Inr st1"
    obtain r ck cl where e: "e = (r, ck, cl)" by (cases e)
    show "?I (d @ [e]) st1"
    proof
      assume "distinct (map fst (d @ [e]))"
      then have dd: "distinct (map fst d)" and new: "r \<notin> fst ` set d"
        using e by auto
      from inv dd have B: "list_all2 ?P d (issues_by_repo st0)" by (rule mp)
      have "map fst (issues_by_repo st0) = map fst d"
        using B by (induction rule: list_all2_induct) auto
      then have "set (map fst (issues_by_repo st0)) = set (map fst d)" by (rule arg_cong)
      then have keys: "fst ` set (issues_by_repo st0) = fst ` set d" by simp
      from step [unfolded e] obtain raws gh1 ps info where
        g: "get_open_issues lib clk urlopen (gh st0) r MAX_ISSUES_PER_REPO = Inr (raws, gh1)"
        and p: "list_all2 (\<lambda>(k, raw) i. process_issue lib (utcnow clk r k) raw r ck cl = Inr i)
           (enumerate 0 raws) ps"
        and b: "issues_by_repo st1 = dict_set (issues_by_repo st0) r ps"
        by (rule fetch_repo_Inr)
      have b': "issues_by_repo st1 = issues_by_repo st0 @ [(r, ps)]"
        using b new keys by (simp add: dict_set_new)
      have "?P e (r, ps)"
        unfolding e using g p by auto
      then have "list_all2 ?P [e] [(r, ps)]" by simp
      with B show "list_all2 ?P (d @ [e]) (issues_by_repo st1)"
        unfolding b' by (rule list_all2_appendI)
    qed
  qed
  then show ?thesis using assms(2) by simp
qed

text \<open>The object written for a record has the keys of the record, each with its value.\<close>

lemma dump_issue_items:
  "\<exists>d. dump_issue i = JDict d \<and>
     map fst d = map str
       [''id'', ''repo'', ''category'', ''category_label'', ''number'', ''title'', ''url'',
        ''author'', ''author_avatar'', ''created_at'', ''updated_at'', ''comments'',
        ''labels'', ''body_preview'', ''is_new'', ''priority'', ''is_bug'', ''is_feature'',
        ''is_security'', ''is_good_first_issue'', ''is_help_wanted''] \<and>
     item (dump_issue i) ''id'' = Inr (issue_id i) \<and>
     item (dump_issue i) ''repo'' = Inr (JStr (repo i)) \<and>
     item (dump_issue i) ''category'' = Inr (JStr (category i)) \<and>
     item (dump_issue i) ''category_label'' = Inr (JStr (category_label i)) \<and>
     item (dump_issue i) ''number'' = Inr (number i) \<and>
     item (dump_issue i) ''title'' = Inr (title i) \<and>
     item (dump_issue i) ''url'' = Inr (url i) \<and>
     item (dump_issue i) ''author'' = Inr (author i) \<and>
     item (dump_issue i) ''author_avatar'' = Inr (author_avatar i) \<and>
     item (dump_issue i) ''created_at'' = Inr (created_at i) \<and>
     item (dump_issue i) ''updated_at'' = Inr (updated_at i) \<and>
     item (dump_issue i) ''comments'' = Inr (comments i) \<and>
     item (dump_issue i) ''labels'' = Inr (JList (map JStr (labels i))) \<and>
     item (dump_issue i) ''body_preview'' = Inr (JStr (body_preview i)) \<and>
     item (dump_issue i) ''is_new'' = Inr (JBool (is_new i)) \<and>
     item (dump_issue i) ''priority'' = Inr (JStr (priority i)) \<and>
     item (dump_issue i) ''is_bug'' = Inr (JBool (is_bug i)) \<and>
     item (dump_issue i) ''is_feature'' = Inr (JBool (is_feature i)) \<and>
     item (dump_issue i) ''is_security'' = Inr (JBool (is_security i)) \<and>
     item (dump_issue i) ''is_good_first_issue'' = Inr (JBool (is_good_first_issue i)) \<and>
     item (dump_issue i) ''is_help_wanted'' = Inr (JBool (is_help_wanted i))"
  by (simp add: dump_issue_def item_def subscript_def dict_get_def str_def)

lemma list_all2_map_self: "(\<And>x. P (f x) x) \<Longrightarrow> list_all2 P (map f xs) xs"
  by (induction xs) auto

text \<open>
  Claim C7. After a run, the lists of the final state are, repository by repository,
  the records \<open>process_issue\<close> returned for the issues fetched for that repository, and
  the full list is their concatenation. \<open>issues.json\<close> holds one object for each record
  of the full list, in order, and \<open>issues_by_repo.json\<close> one list of objects for each
  repository: each object has the keys of the record and under each key the value
  \<open>process_issue\<close> gave it. Building the page leaves both files as \<open>fetch_all\<close> wrote
  them.
\<close>

theorem records_written_as_produced:
  assumes "run lib tpl clk urlopen fs = (Inr (), fs')"
  shows "\<exists>cats st s js dd.
     repos_json fs = Some cats \<and>
     fetch_data lib clk urlopen cats = Inr (st, s) \<and>
     list_all2
       (\<lambda>(r, ck, cl) (r', ps). r' = r \<and>
          (\<exists>self self' raws.
             get_open_issues lib clk urlopen self r MAX_ISSUES_PER_REPO = Inr (raws, self') \<and>
             list_all2 (\<lambda>(k, raw) i. process_issue lib (utcnow clk r k) raw r ck cl = Inr i)
               (enumerate 0 raws) ps))
       (repo_to_category cats) (issues_by_repo st) \<and>
     all_issues st = concat (map snd (issues_by_repo st)) \<and>
     issues_json fs' = Some (JList js) \<and>
     issues_by_repo_json fs' = Some (JDict dd) \<and>
     (let same = (\<lambda>j i.
            (\<exists>d. j = JDict d \<and>
               map fst d = map str
                 [''id'', ''repo'', ''category'', ''category_label'', ''number'', ''title'',
                  ''url'', ''author'', ''author_avatar'', ''created_at'', ''updated_at'',
                  ''comments'', ''labels'', ''body_preview'', ''is_new'', ''priority'',
                  ''is_bug'', ''is_feature'', ''is_security'', ''is_good_first_issue'',
                  ''is_help_wanted'']) \<and>
            item j ''id'' = Inr (issue_id i) \<and>
            item j ''repo'' = Inr (JStr (repo i)) \<and>
            item j ''category'' = Inr (JStr (category i)) \<and>
            item j ''category_label'' = Inr (JStr (category_label i)) \<and>
            item j ''number'' = Inr (number i) \<and>
            item j ''title'' = Inr (title i) \<and>
            item j ''url'' = Inr (url i) \<and>
            item j ''author'' = Inr (author i) \<and>
            item j ''author_avatar'' = Inr (author_avatar i) \<and>
            item j ''created_at'' = Inr (created_at i) \<and>
            item j ''updated_at'' = Inr (updated_at i) \<and>
            item j ''comments'' = Inr (comments i) \<and>
            item j ''labels'' = Inr (JList (map JStr (labels i))) \<and>
            item j ''body_preview'' = Inr (JStr (body_preview i)) \<and>
            item j ''is_new'' = Inr (JBool (is_new i)) \<and>
            item j ''priority'' = Inr (JStr (priority i)) \<and>
            item j ''is_bug'' = Inr (JBool (is_bug i)) \<and>
            item j ''is_feature'' = Inr (JBool (is_feature i)) \<and>
            item j ''is_security'' = Inr (JBool (is_security i)) \<and>
            item j ''is_good_first_issue'' = Inr (JBool (is_good_first_issue i)) \<and>
            item j ''is_help_wanted'' = Inr (JBool (is_help_wanted i)))
      in list_all2 same js (all_issues st) \<and>
         list_all2 (\<lambda>(r', j) (r, ps). r' = r \<and> (\<exists>js. j = JList js \<and> list_all2 same js ps))
           dd (issues_by_repo st))"
proof -
  from assms obtain fs1 where
    f: "fetch_all lib clk urlopen fs = (Inr (), fs1)"
    and b: "build_site lib tpl clk fs1 = (Inr (), fs')"
    by (rule run_ok)
  from f obtain cats st s where
    c: "repos_json fs = Some cats"
    and d: "fetch_data lib clk urlopen cats = Inr (st, s)"
    and w: "fs1 = fs\<lparr>issues_json := Some (JList (map dump_issue (all_issues st))),
              stats_json := Some (dump_stats s),
              issues_by_repo_json :=
                Some (dump_dict (\<lambda>is. JList (map dump_issue is)) (issues_by_repo st))\<rparr>"
    by (rule fetch_all_ok)
  from b obtain html where h: "fs' = fs1\<lparr>index_html := Some html\<rparr>"
    by (rule build_site_ok)
  have loop: "fetch_loop lib clk urlopen (repo_to_category cats) initial_state = Inr st"
    using fetch_data_Inr(1) [OF d] .
  have dist: "distinct (map fst (repo_to_category cats))"
    using unique_repos by blast
  note 1 = fetch_loop_produced_lists [OF loop dist]
  have 2: "all_issues st = concat (map snd (issues_by_repo st))"
    using fetch_loop_lists [OF loop dist] by simp
  let ?js = "map dump_issue (all_issues st)"
  let ?dd = "map (\<lambda>(k, v). (k, JList (map dump_issue v))) (issues_by_repo st)"
  have 3: "issues_json fs' = Some (JList ?js)"
    unfolding h w by simp
  have 4: "issues_by_repo_json fs' = Some (JDict ?dd)"
    unfolding h w by (simp add: dump_dict_def)
  let ?same = "\<lambda>j i.
            (\<exists>d. j = JDict d \<and>
               map fst d = map str
                 [''id'', ''repo'', ''category'', ''category_label'', ''number'', ''title'',
                  ''url'', ''author'', ''author_avatar'', ''created_at'', ''updated_at'',
                  ''comments'', ''labels'', ''body_preview'', ''is_new'', ''priority'',
                  ''is_bug'', ''is_feature'', ''is_security'', ''is_good_first_issue'',
                  ''is_help_wanted'']) \<and>
            item j ''id'' = Inr (issue_id i) \<and>
            item j ''repo'' = Inr (JStr (repo i)) \<and>
            item j ''category'' = Inr (JStr (category i)) \<and>
            item j ''category_label'' = Inr (JStr (category_label i)) \<and>
            item j ''number'' = Inr (number i) \<and>
            item j ''title'' = Inr (title i) \<and>
            item j ''url'' = Inr (url i) \<and>
            item j ''author'' = Inr (author i) \<and>
            item j ''author_avatar'' = Inr (author_avatar i) \<and>
            item j ''created_at'' = Inr (created_at i) \<and>
            item j ''updated_at'' = Inr (updated_at i) \<and>
            item j ''comments'' = Inr (comments i) \<and>
            item j ''labels'' = Inr (JList (map JStr (labels i))) \<and>
            item j ''body_preview'' = Inr (JStr (body_preview i)) \<and>
            item j ''is_new'' = Inr (JBool (is_new i)) \<and>
            item j ''priority'' = Inr (JStr (priority i)) \<and>
            item j ''is_bug'' = Inr (JBool (is_bug i)) \<and>
            item j ''is_feature'' = Inr (JBool (is_feature i)) \<and>
            item j ''is_security'' = Inr (JBool (is_security i)) \<and>
            item j ''is_good_first_issue'' = Inr (JBool (is_good_first_issue i)) \<and>
            item j ''is_help_wanted'' = Inr (JBool (is_help_wanted i))"
  have same: "?same (dump_issue i) i" for i
    using dump_issue_items [of i] by (elim exE conjE) (intro conjI exI; assumption)
  have all: "list_all2 ?same (map dump_issue xs) xs" for xs
    by (rule list_all2_map_self) (rule same)
  have 5: "list_all2 ?same ?js (all_issues st)"
    by (rule all)
  have 6: "list_all2 (\<lambda>(r', j) (r, ps). r' = r \<and> (\<exists>js. j = JList js \<and> list_all2 ?same js ps))
           ?dd (issues_by_repo st)"
  proof (rule list_all2_map_self)
    fix e :: "pystr \<times> issue list"
    obtain r ps where e: "e = (r, ps)" by (cases e)
    have "\<exists>js. JList (map dump_issue ps) = JList js \<and> list_all2 ?same js ps"
      using all [of ps] by (intro exI conjI) (rule refl)
    then show "(case case e of (k, v) \<Rightarrow> (k, JList (map dump_issue v)) of
        (r', j) \<Rightarrow> \<lambda>(r, ps). r' = r \<and> (\<exists>js. j = JList js \<and> list_all2 ?same js ps)) e"
      unfolding e by (simp only: prod.case simp_thms)
  qed
  show ?thesis
    apply (rule exI [of _ cats], rule exI [of _ st], rule exI [of _ s])
    apply (rule exI [of _ ?js], rule exI [of _ ?dd])
    unfolding Let_def
    using c d 1 2 3 4 5 6
    apply (intro conjI)
    apply assumption+
    done
qed

theorem records_written_as_produced_witness:
  "(case run example_library example_templates example_clock example_network example_files of
      (Inr u, fs') \<Rightarrow>
        (case issues_json fs' of
           Some (JList [j]) \<Rightarrow>
             item j ''id'' = Inr (JInt 101) \<and>
             item j ''repo'' = Inr (JStr (str ''django/django'')) \<and>
             item j ''title'' = Inr (JStr (str ''Crash on save'')) \<and>
             item j ''body_preview'' = Inr (JStr (str ''It crashes. See the log.'')) \<and>
             item j ''priority'' = Inr (JStr (str ''high'')) \<and>
             item j ''is_new'' = Inr (JBool True)
         | _ \<Rightarrow> False)
    | _ \<Rightarrow> False)"
proof -
  let ?r = "run example_library example_templates example_clock example_network example_files"
  let ?f = "fetch_data example_library example_clock example_network example_categories"
  let ?p = "process_issue example_library 1714651200000000 example_issue
           (str ''django/django'') (str ''core'') (str ''Core'')"
  have "fst ?r = Inr ()" by (simp add: model_defs)
  then obtain fs' where r: "?r = (Inr (), fs')" by (cases ?r) auto
  from records_written_as_produced [OF r, unfolded Let_def]
  have "\<exists>cats st s js.
      repos_json example_files = Some cats \<and>
      fetch_data example_library example_clock example_network cats = Inr (st, s) \<and>
      issues_json fs' = Some (JList js) \<and>
      list_all2 (\<lambda>j i.
            item j ''id'' = Inr (issue_id i) \<and>
            item j ''repo'' = Inr (JStr (repo i)) \<and>
            item j ''title'' = Inr (title i) \<and>
            item j ''body_preview'' = Inr (JStr (body_preview i)) \<and>
            item j ''priority'' = Inr (JStr (priority i)) \<and>
            item j ''is_new'' = Inr (JBool (is_new i))) js (all_issues st)"
    apply (elim exE conjE)
    apply (intro exI conjI)
       apply assumption
      apply assumption
     apply assumption
    apply (erule list_all2_mono, simp)
    done
  then obtain cats st s js where
    c: "repos_json example_files = Some cats"
    and f: "fetch_data example_library example_clock example_network cats = Inr (st, s)"
    and w: "issues_json fs' = Some (JList js)"
    and same: "list_all2 (\<lambda>j i.
            item j ''id'' = Inr (issue_id i) \<and>
            item j ''repo'' = Inr (JStr (repo i)) \<and>
            item j ''title'' = Inr (title i) \<and>
            item j ''body_preview'' = Inr (JStr (body_preview i)) \<and>
            item j ''priority'' = Inr (JStr (priority i)) \<and>
            item j ''is_new'' = Inr (JBool (is_new i))) js (all_issues st)"
    by blast
  from c have cats: "cats = example_categories"
    by (simp add: example_files_def)
  have "\<not> isl ?p" by (simp add: model_defs)
  then obtain i where i: "?p = Inr i" by (cases ?p) auto
  have "map Inr (all_issues (fst (projr ?f))) = [?p]"
    by (simp add: model_defs)
  then have a: "all_issues st = [i]"
    using f unfolding cats i by (auto simp: map_eq_Cons_conv)
  have "issue_id (projr ?p) = JInt 101 \<and> repo (projr ?p) = str ''django/django'' \<and>
        title (projr ?p) = JStr (str ''Crash on save'') \<and>
        body_preview (projr ?p) = str ''It crashes. See the log.'' \<and>
        priority (projr ?p) = str ''high'' \<and> is_new (projr ?p)"
    by (simp add: model_defs)
  then have v: "issue_id i = JInt 101" "repo i = str ''django/django''"
    "title i = JStr (str ''Crash on save'')" "body_preview i = str ''It crashes. See the log.''"
    "priority i = str ''high''" "is_new i"
    unfolding i by simp_all
  from same obtain j where j: "js = [j]"
    and "item j ''id'' = Inr (issue_id i) \<and>
            item j ''repo'' = Inr (JStr (repo i)) \<and>
            item j ''title'' = Inr (title i) \<and>
            item j ''body_preview'' = Inr (JStr (body_preview i)) \<and>
            item j ''priority'' = Inr (JStr (priority i)) \<and>
            item j ''is_new'' = Inr (JBool (is_new i))"
    unfolding a by (auto simp: list_all2_Cons2)
  with v w show ?thesis
    unfolding r by simp
qed

text \<open>
  Claim C6, as the code has it. The files a run that completes has written are
  determined by the configuration, the answers of the API and the clock: when a run
  completes, so does the run from any other contents of the four output files, and the
  four files are the same after both.
\<close>

theorem outputs_independent_of_prior_files:
  assumes "repos_json fs1 = repos_json fs2"
    and "run lib tpl clk urlopen fs1 = (Inr (), fs1')"
  shows "\<exists>fs2'. run lib tpl clk urlopen fs2 = (Inr (), fs2') \<and> outputs fs2' = outputs fs1'"
proof -
  from assms(2) obtain m1 where
    f: "fetch_all lib clk urlopen fs1 = (Inr (), m1)"
    and b: "build_site lib tpl clk m1 = (Inr (), fs1')"
    by (rule run_ok)
  from f obtain cats st s where
    c: "repos_json fs1 = Some cats"
    and d: "fetch_data lib clk urlopen cats = Inr (st, s)"
    and w: "m1 = fs1\<lparr>issues_json := Some (JList (map dump_issue (all_issues st))),
              stats_json := Some (dump_stats s),
              issues_by_repo_json :=
                Some (dump_dict (\<lambda>is. JList (map dump_issue is)) (issues_by_repo st))\<rparr>"
    by (rule fetch_all_ok)
  from b obtain html where
    rn: "render lib tpl clk m1 = Inr html" and h: "fs1' = m1\<lparr>index_html := Some html\<rparr>"
    by (rule build_site_ok)
  let ?m2 = "fs2\<lparr>issues_json := Some (JList (map dump_issue (all_issues st))),
              stats_json := Some (dump_stats s),
              issues_by_repo_json :=
                Some (dump_dict (\<lambda>is. JList (map dump_issue is)) (issues_by_repo st))\<rparr>"
  have c2: "repos_json fs2 = Some cats"
    using c assms(1) by simp
  have f2: "fetch_all lib clk urlopen fs2 = (Inr (), ?m2)"
    unfolding fetch_all_def by (simp add: c2 d)
  have "render lib tpl clk ?m2 = render lib tpl clk m1"
    by (rule render_reads) (simp_all add: w c c2)
  then have "build_site lib tpl clk ?m2 = (Inr (), ?m2\<lparr>index_html := Some html\<rparr>)"
    unfolding build_site_def by (simp add: rn)
  then have "run lib tpl clk urlopen fs2 = (Inr (), ?m2\<lparr>index_html := Some html\<rparr>)"
    unfolding run_def f2 by simp
  moreover have "outputs (?m2\<lparr>index_html := Some html\<rparr>) = outputs fs1'"
    unfolding h w outputs_def by simp
  ultimately show ?thesis by blast
qed

theorem outputs_independent_of_prior_files_witness:
  "outputs example_files \<noteq> outputs example_stale_files \<and>
   fst (run example_library example_templates example_clock example_network example_files) =
     Inr () \<and>
   fst (run example_library example_templates example_clock example_network
          example_stale_files) = Inr () \<and>
   outputs (snd (run example_library example_templates example_clock example_network
                   example_stale_files)) =
   outputs (snd (run example_library example_templates example_clock example_network
                   example_files))"
proof -
  let ?r1 = "run example_library example_templates example_clock example_network example_files"
  let ?r2 = "run example_library example_templates example_clock example_network
               example_stale_files"
  have h: "repos_json example_files = repos_json example_stale_files"
    by (simp add: example_files_def example_stale_files_def)
  have d: "outputs example_files \<noteq> outputs example_stale_files"
    by (simp add: outputs_def example_files_def example_stale_files_def)
  have t: "fst ?r1 = Inr ()"
    by (simp add: model_defs)
  then obtain fs1' where r1: "?r1 = (Inr (), fs1')" by (cases ?r1) auto
  from outputs_independent_of_prior_files [OF h r1] obtain fs2' where
    "?r2 = (Inr (), fs2')" "outputs fs2' = outputs fs1'"
    by blast
  with d t r1 show ?thesis by simp
qed

text \<open>
  The clock is an input too: with the same configuration and the same answers of the
  API, a run one day later, over other files left from before, writes another
  \<open>stats.json\<close> (its \<open>generated_at\<close>). And a run that raises writes nothing: when the API
  answers with an issue that has no \<open>id\<close>, \<open>process_issue\<close> raises \<open>KeyError\<close> and the
  files are after the run what they were before it.
\<close>

theorem outputs_depend_on_clock_and_completion:
  "fst (run example_library example_templates example_clock example_network example_files) =
     Inr () \<and>
   fst (run example_library example_templates
          (example_clock\<lparr>stats_time := str ''2024-05-03T12:00:05+00:00''\<rparr>)
          example_network example_stale_files) = Inr () \<and>
   stats_json (snd (run example_library example_templates example_clock example_network
                      example_files)) \<noteq>
   stats_json (snd (run example_library example_templates
                      (example_clock\<lparr>stats_time := str ''2024-05-03T12:00:05+00:00''\<rparr>)
                      example_network example_stale_files)) \<and>
   run example_library example_templates example_clock example_bad_network example_files =
     (Inl KeyError, example_files) \<and>
   run example_library example_templates example_clock example_bad_network
     example_stale_files = (Inl KeyError, example_stale_files) \<and>
   outputs example_files \<noteq> outputs example_stale_files"
  by (simp add: model_defs)

end
